theory Spec2Isabelle
  imports Complex_Main
begin

section \<open>Common vocabulary\<close>

text \<open>
  The classifiers of MochiMochi work on \<^verbatim>\<open>Eigen::VectorXd\<close> and \<^verbatim>\<open>double\<close>.
  A vector is the list of its entries. A \<^verbatim>\<open>double\<close> is a real number: the model is the
  exact arithmetic that the code approximates, so rounding, overflow to an infinity and NaN
  are not part of it. Where the code divides by zero it goes on with an infinity or a NaN,
  which a real number cannot stand for; the theorems below are stated on inputs where every
  divisor that matters is different from zero (a guard of the code, \<open>C > 0\<close>, a time step that
  has not wrapped, the invariant of the reachable states).
  A \<^verbatim>\<open>std::size_t\<close> is a natural number, reduced modulo \<open>2 ^ 64\<close> where the code
  increments it. An \<^verbatim>\<open>int\<close> label or selector is an integer; the only \<^verbatim>\<open>int\<close> arithmetic
  of the code is the negation of a label.

  \<^verbatim>\<open>assert\<close> and Eigen's own assertions are taken as active (no \<^verbatim>\<open>NDEBUG\<close>): a failed
  one ends the run, which is the value \<open>Inl\<close> of a result, as is the exception of calling an
  empty \<^verbatim>\<open>std::function\<close>.
\<close>

datatype error =
    AssertFailed          \<comment> \<open>\<^verbatim>\<open>assert(...)\<close> of the repository\<close>
  | EigenSizeAssert       \<comment> \<open>\<^verbatim>\<open>dot\<close> on vectors of different sizes\<close>
  | EigenIndexAssert      \<comment> \<open>\<^verbatim>\<open>operator[]\<close> past the end of a vector\<close>
  | BadFunctionCall       \<comment> \<open>call of an empty \<^verbatim>\<open>std::function\<close>\<close>

definition dot :: "real list \<Rightarrow> real list \<Rightarrow> error + real" where
  "dot a b = (if length a = length b then Inr (sum_list (map2 (*) a b)) else Inl EigenSizeAssert)"

text \<open>
  Modelled from the spec: \<^verbatim>\<open>functions::enumerate\<close> (\<^verbatim>\<open>functions/enumerate.hpp\<close> is not
  among the sources). Indexed iteration over a vector: the callback receives entries with
  their indices, in order, the indices counting from the first index given. Which entries it
  hands to the callback the sources do not fix: every call passes the whole buffer of the
  vector, \<^verbatim>\<open>[data, data + size)\<close>, and the first index 0, and the specification speaks of
  iteration over the non-zero entries. Both readings are kept, as a parameter of the
  iteration: every entry is visited, or the entries different from zero. A callback that
  fails ends the iteration.
\<close>

datatype visits = EveryEntry | NonZeroEntries

fun visited :: "visits \<Rightarrow> real \<Rightarrow> bool" where
  "visited EveryEntry v = True"
| "visited NonZeroEntries v = (v \<noteq> 0)"

fun enumerate_from :: "visits \<Rightarrow> nat \<Rightarrow> real list \<Rightarrow> (nat \<Rightarrow> real \<Rightarrow> 's \<Rightarrow> error + 's) \<Rightarrow> 's \<Rightarrow> error + 's" where
  "enumerate_from vis initial [] func s = Inr s"
| "enumerate_from vis initial (v # vs) func s =
     (if visited vis v
      then (case func initial v s of
              Inl e \<Rightarrow> Inl e
            | Inr s' \<Rightarrow> enumerate_from vis (Suc initial) vs func s')
      else enumerate_from vis (Suc initial) vs func s)"

section \<open>Passive-Aggressive (pa.hpp)\<close>

text \<open>The three closures the constructor chooses from; an unrecognised selector leaves
  \<^verbatim>\<open>_compute_tau\<close> empty (the \<^verbatim>\<open>std::runtime_error\<close> of the default branch is built and
  dropped, not thrown).\<close>

datatype tau_fn = TauPA | TauPA1 | TauPA2

record PA =
  PA_kDim :: nat
  PA_kC :: real
  PA_kSelect :: int
  PA_weight :: "real list"
  PA_compute_tau :: "tau_fn option"

definition PA_switch :: "int \<Rightarrow> tau_fn option" where
  "PA_switch select =
     (if select = 0 then Some TauPA
      else if select = 1 then Some TauPA1
      else if select = 2 then Some TauPA2
      else None)"

text \<open>The constructor has two \<^verbatim>\<open>static_assert\<close>s on \<^verbatim>\<open>numeric_limits::max()\<close>, which hold
  at compile time for every argument, and no run-time check.\<close>

definition PA_ctor :: "nat \<Rightarrow> real \<Rightarrow> int \<Rightarrow> error + PA" where
  "PA_ctor dimension C select =
     Inr \<lparr>PA_kDim = dimension, PA_kC = C, PA_kSelect = select,
          PA_weight = replicate dimension 0, PA_compute_tau = PA_switch select\<rparr>"

text \<open>A closure applied: the closures capture \<^verbatim>\<open>this\<close>, so \<^verbatim>\<open>kC\<close> is read when the
  closure is called.\<close>

fun PA_tau :: "tau_fn \<Rightarrow> real \<Rightarrow> real \<Rightarrow> real \<Rightarrow> real" where
  "PA_tau TauPA C val loss = (if val = 0 then 0 else loss / \<bar>val\<bar> ^ 2)"
| "PA_tau TauPA1 C val loss = (if val = 0 then C else min C (loss / \<bar>val\<bar> ^ 2))"
| "PA_tau TauPA2 C val loss = loss / (\<bar>val\<bar> ^ 2 + 1 / 2 * C)"

definition PA_suffer_loss :: "PA \<Rightarrow> real list \<Rightarrow> int \<Rightarrow> error + real" where
  "PA_suffer_loss s x y =
     (case dot (PA_weight s) x of
        Inl e \<Rightarrow> Inl e
      | Inr d \<Rightarrow> Inr (max 0 (1 - real_of_int y * d)))"

definition PA_compute_margin :: "PA \<Rightarrow> real list \<Rightarrow> error + real" where
  "PA_compute_margin s x = dot (PA_weight s) x"

definition PA_update_body :: "int \<Rightarrow> real \<Rightarrow> nat \<Rightarrow> real \<Rightarrow> PA \<Rightarrow> error + PA" where
  "PA_update_body label loss index val s =
     (case PA_compute_tau s of
        None \<Rightarrow> Inl BadFunctionCall
      | Some f \<Rightarrow>
          (let tau = PA_tau f (PA_kC s) val loss in
           if index < length (PA_weight s)
           then Inr (s\<lparr>PA_weight := (PA_weight s)[index := PA_weight s ! index + tau * real_of_int label * val]\<rparr>)
           else Inl EigenIndexAssert))"

definition PA_update :: "visits \<Rightarrow> PA \<Rightarrow> real list \<Rightarrow> int \<Rightarrow> error + (bool \<times> PA)" where
  "PA_update vis s feature label =
     (case PA_suffer_loss s feature label of
        Inl e \<Rightarrow> Inl e
      | Inr loss \<Rightarrow>
          (case enumerate_from vis 0 feature (PA_update_body label loss) s of
             Inl e \<Rightarrow> Inl e
           | Inr s' \<Rightarrow> Inr (True, s')))"

definition PA_predict :: "PA \<Rightarrow> real list \<Rightarrow> error + int" where
  "PA_predict s x =
     (case PA_compute_margin s x of
        Inl e \<Rightarrow> Inl e
      | Inr m \<Rightarrow> Inr (if m > 0 then 1 else - 1))"

text \<open>The archive of \<^verbatim>\<open>save\<close>: the four named fields, in the order written.\<close>

record PA_archive =
  ar_weight :: "real list"
  ar_dimension :: nat
  ar_C :: real
  ar_select :: int

definition PA_save :: "PA \<Rightarrow> PA_archive" where
  "PA_save s =
     \<lparr>ar_weight = PA_weight s, ar_dimension = PA_kDim s, ar_C = PA_kC s, ar_select = PA_kSelect s\<rparr>"

text \<open>\<^verbatim>\<open>load\<close> writes the three constants through \<^verbatim>\<open>const_cast\<close> and the weight;
  \<^verbatim>\<open>_compute_tau\<close> is not assigned.\<close>

definition PA_load :: "PA \<Rightarrow> PA_archive \<Rightarrow> PA" where
  "PA_load s a =
     s\<lparr>PA_kDim := ar_dimension a, PA_kC := ar_C a, PA_kSelect := ar_select a,
       PA_weight := ar_weight a\<rparr>"


section \<open>AdaGrad-RDA (adagrad_rda.hpp)\<close>

record ADAGRAD_RDA =
  RDA_kDim :: nat
  RDA_kEta :: real
  RDA_kLambda :: real
  RDA_timestep :: nat
  RDA_w :: "real list"
  RDA_h :: "real list"
  RDA_g :: "real list"

text \<open>The three \<^verbatim>\<open>static_assert\<close>s hold at compile time; the three \<^verbatim>\<open>assert\<close>s are the
  run-time checks.\<close>

definition ADAGRAD_RDA_ctor :: "nat \<Rightarrow> real \<Rightarrow> real \<Rightarrow> error + ADAGRAD_RDA" where
  "ADAGRAD_RDA_ctor dimension eta lambda =
     (if dimension > 0 \<and> eta > 0 \<and> lambda > 0
      then Inr \<lparr>RDA_kDim = dimension, RDA_kEta = eta, RDA_kLambda = lambda, RDA_timestep = 0,
                RDA_w = replicate dimension 0, RDA_h = replicate dimension 0,
                RDA_g = replicate dimension 0\<rparr>
      else Inl AssertFailed)"

definition RDA_calculate_margin :: "ADAGRAD_RDA \<Rightarrow> real list \<Rightarrow> error + real" where
  "RDA_calculate_margin s x = dot (RDA_w s) x"

definition RDA_suffer_loss :: "ADAGRAD_RDA \<Rightarrow> real list \<Rightarrow> int \<Rightarrow> error + real" where
  "RDA_suffer_loss s x y =
     (case dot (RDA_w s) x of
        Inl e \<Rightarrow> Inl e
      | Inr d \<Rightarrow> Inr (max 0 (1 - real_of_int y * d)))"

text \<open>The weight a visited coordinate receives, from its accumulated \<open>g\<close> and \<open>h\<close> and the
  time step: the last five lines of the callback of \<^verbatim>\<open>update\<close>.\<close>

definition RDA_weight :: "real \<Rightarrow> real \<Rightarrow> nat \<Rightarrow> real \<Rightarrow> real \<Rightarrow> real" where
  "RDA_weight kEta kLambda timestep gi hi =
     (let sign = (if gi \<ge> 0 then 1 else - 1);
          eta = kEta / sqrt hi;
          u = \<bar>gi\<bar> / real timestep
      in if u \<le> kLambda then 0 else - sign * eta * real timestep * (u - kLambda))"

definition RDA_update_body :: "int \<Rightarrow> nat \<Rightarrow> real \<Rightarrow> ADAGRAD_RDA \<Rightarrow> error + ADAGRAD_RDA" where
  "RDA_update_body label index val s =
     (if index < length (RDA_g s) \<and> index < length (RDA_h s) \<and> index < length (RDA_w s)
      then
        (let gradiant = real_of_int (- label) * val;
             gi = RDA_g s ! index + gradiant;
             hi = RDA_h s ! index + gradiant * gradiant
         in Inr (s\<lparr>RDA_g := (RDA_g s)[index := gi],
                   RDA_h := (RDA_h s)[index := hi],
                   RDA_w := (RDA_w s)[index := RDA_weight (RDA_kEta s) (RDA_kLambda s) (RDA_timestep s) gi hi]\<rparr>))
      else Inl EigenIndexAssert)"

definition RDA_update :: "visits \<Rightarrow> ADAGRAD_RDA \<Rightarrow> real list \<Rightarrow> int \<Rightarrow> error + (bool \<times> ADAGRAD_RDA)" where
  "RDA_update vis s feature label =
     (case RDA_suffer_loss s feature label of
        Inl e \<Rightarrow> Inl e
      | Inr loss \<Rightarrow>
          if loss \<le> 0 then Inr (False, s)
          else
            (case enumerate_from vis 0 feature (RDA_update_body label)
                    (s\<lparr>RDA_timestep := (RDA_timestep s + 1) mod 2 ^ 64\<rparr>) of
               Inl e \<Rightarrow> Inl e
             | Inr s' \<Rightarrow> Inr (True, s')))"

definition RDA_predict :: "ADAGRAD_RDA \<Rightarrow> real list \<Rightarrow> error + int" where
  "RDA_predict s x =
     (case RDA_calculate_margin s x of
        Inl e \<Rightarrow> Inl e
      | Inr m \<Rightarrow> Inr (if m > 0 then 1 else - 1))"

text \<open>A sequence of \<^verbatim>\<open>update\<close> calls on one instance, each with its feature vector and label;
  a call that fails ends the run.\<close>

fun RDA_updates :: "visits \<Rightarrow> ADAGRAD_RDA \<Rightarrow> (real list \<times> int) list \<Rightarrow> error + ADAGRAD_RDA" where
  "RDA_updates vis s [] = Inr s"
| "RDA_updates vis s (c # cs) =
     (case RDA_update vis s (fst c) (snd c) of
        Inl e \<Rightarrow> Inl e
      | Inr r \<Rightarrow> RDA_updates vis (snd r) cs)"

text \<open>The averaged magnitude \<open>u\<close> of coordinate \<open>i\<close> stays within \<open>lambda\<close> at every call of
  the sequence that changes the state.\<close>

fun RDA_u_within :: "visits \<Rightarrow> nat \<Rightarrow> ADAGRAD_RDA \<Rightarrow> (real list \<times> int) list \<Rightarrow> bool" where
  "RDA_u_within vis i s [] = True"
| "RDA_u_within vis i s (c # cs) =
     (case RDA_update vis s (fst c) (snd c) of
        Inl e \<Rightarrow> True
      | Inr r \<Rightarrow>
          (if fst r
           then \<bar>RDA_g (snd r) ! i\<bar> / real (RDA_timestep (snd r)) \<le> RDA_kLambda (snd r)
           else True)
          \<and> RDA_u_within vis i (snd r) cs)"

text \<open>What holds of every state an instance reaches from its construction: the hyperparameters
  are positive, the three vectors have the dimension, \<open>h\<close> is non-negative and positive where
  \<open>g\<close> is not zero, before the first effective update \<open>g\<close> and \<open>w\<close> are zero, and no weight
  has the sign of its \<open>g\<close>. When every entry is visited, every weight is moreover the one the
  callback computes from the coordinate's \<open>g\<close> and \<open>h\<close> and the current time step.\<close>

definition RDA_inv :: "visits \<Rightarrow> ADAGRAD_RDA \<Rightarrow> bool" where
  "RDA_inv vis s \<longleftrightarrow>
     0 < RDA_kEta s \<and> 0 < RDA_kLambda s
     \<and> length (RDA_w s) = RDA_kDim s \<and> length (RDA_h s) = RDA_kDim s \<and> length (RDA_g s) = RDA_kDim s
     \<and> (\<forall>i < RDA_kDim s.
           0 \<le> RDA_h s ! i
         \<and> (RDA_g s ! i \<noteq> 0 \<longrightarrow> 0 < RDA_h s ! i)
         \<and> (RDA_timestep s = 0 \<longrightarrow> RDA_g s ! i = 0 \<and> RDA_w s ! i = 0)
         \<and> RDA_w s ! i * RDA_g s ! i \<le> 0
         \<and> (vis = EveryEntry \<and> 0 < RDA_timestep s \<longrightarrow>
              RDA_w s ! i = RDA_weight (RDA_kEta s) (RDA_kLambda s) (RDA_timestep s) (RDA_g s ! i) (RDA_h s ! i)))"

section \<open>ADAM (adam.hpp)\<close>

record ADAM =
  ADAM_kDim :: nat
  ADAM_timestep :: nat
  ADAM_w :: "real list"
  ADAM_m :: "real list"
  ADAM_v :: "real list"

definition ADAM_ctor :: "nat \<Rightarrow> error + ADAM" where
  "ADAM_ctor dimension =
     (if dimension > 0
      then Inr \<lparr>ADAM_kDim = dimension, ADAM_timestep = 0, ADAM_w = replicate dimension 0,
                ADAM_m = replicate dimension 0, ADAM_v = replicate dimension 0\<rparr>
      else Inl AssertFailed)"

definition kAlpha :: real where "kAlpha = 1 / 1000"
definition kBeta1 :: real where "kBeta1 = 9 / 10"
definition kBeta2 :: real where "kBeta2 = 999 / 1000"
definition kEpsilon :: real where "kEpsilon = 1 / 100000000"
definition kLambda :: real where "kLambda = 99999999 / 100000000"

definition ADAM_suffer_loss :: "ADAM \<Rightarrow> real list \<Rightarrow> int \<Rightarrow> error + real" where
  "ADAM_suffer_loss s x y =
     (case dot (ADAM_w s) x of
        Inl e \<Rightarrow> Inl e
      | Inr d \<Rightarrow> Inr (max 0 (1 - real_of_int y * d)))"

definition ADAM_calculate_margin :: "ADAM \<Rightarrow> real list \<Rightarrow> error + real" where
  "ADAM_calculate_margin s x = dot (ADAM_w s) x"

definition ADAM_update_body :: "real \<Rightarrow> nat \<Rightarrow> real \<Rightarrow> ADAM \<Rightarrow> error + ADAM" where
  "ADAM_update_body beta1_t index val s =
     (if index < length (ADAM_m s) \<and> index < length (ADAM_v s) \<and> index < length (ADAM_w s)
      then
        (let mi = beta1_t * ADAM_m s ! index + (1 - beta1_t) * val;
             vi = kBeta2 * ADAM_v s ! index + (1 - kBeta2) * val * val;
             m_t = mi / (1 - kBeta1 ^ ADAM_timestep s);
             v_t = vi / (1 - kBeta2 ^ ADAM_timestep s)
         in Inr (s\<lparr>ADAM_m := (ADAM_m s)[index := mi],
                   ADAM_v := (ADAM_v s)[index := vi],
                   ADAM_w := (ADAM_w s)[index := ADAM_w s ! index - kAlpha * m_t / (sqrt v_t + kEpsilon)]\<rparr>))
      else Inl EigenIndexAssert)"

definition ADAM_update :: "visits \<Rightarrow> ADAM \<Rightarrow> real list \<Rightarrow> int \<Rightarrow> error + (bool \<times> ADAM)" where
  "ADAM_update vis s feature label =
     (case ADAM_suffer_loss s feature label of
        Inl e \<Rightarrow> Inl e
      | Inr loss \<Rightarrow>
          if loss \<le> 0 then Inr (False, s)
          else
            (let gradiant = map (\<lambda>v. real_of_int (- label) * v) feature;
                 beta1_t = kLambda ^ ADAM_timestep s * kBeta1
             in case enumerate_from vis 0 gradiant (ADAM_update_body beta1_t)
                       (s\<lparr>ADAM_timestep := (ADAM_timestep s + 1) mod 2 ^ 64\<rparr>) of
                  Inl e \<Rightarrow> Inl e
                | Inr s' \<Rightarrow> Inr (True, s')))"

definition ADAM_predict :: "ADAM \<Rightarrow> real list \<Rightarrow> error + int" where
  "ADAM_predict s feature =
     (case ADAM_calculate_margin s feature of
        Inl e \<Rightarrow> Inl e
      | Inr m \<Rightarrow> Inr (if m > 0 then 1 else - 1))"

section \<open>Normal HERD (the NHERD class)\<close>

text \<open>The four closures of the constructor's switch; as for PA, the default branch builds a
  \<^verbatim>\<open>std::runtime_error\<close> without throwing it and leaves \<^verbatim>\<open>_compute_covariance\<close> empty.\<close>

datatype cov_fn = CovFull | CovExact | CovProject | CovDrop

record NHERD =
  NHERD_kDim :: nat
  NHERD_kC :: real
  NHERD_kDiagonal :: int
  NHERD_covariances :: "real list"
  NHERD_means :: "real list"
  NHERD_compute_covariance :: "cov_fn option"

definition NHERD_switch :: "int \<Rightarrow> cov_fn option" where
  "NHERD_switch diagonal =
     (if diagonal = 0 then Some CovFull
      else if diagonal = 1 then Some CovExact
      else if diagonal = 2 then Some CovProject
      else if diagonal = 3 then Some CovDrop
      else None)"

definition NHERD_ctor :: "nat \<Rightarrow> real \<Rightarrow> int \<Rightarrow> error + NHERD" where
  "NHERD_ctor dimension C diagonal =
     Inr \<lparr>NHERD_kDim = dimension, NHERD_kC = C, NHERD_kDiagonal = diagonal,
          NHERD_covariances = replicate dimension 1, NHERD_means = replicate dimension 0,
          NHERD_compute_covariance = NHERD_switch diagonal\<rparr>"

fun NHERD_cov :: "cov_fn \<Rightarrow> real \<Rightarrow> real \<Rightarrow> real \<Rightarrow> real \<Rightarrow> real" where
  "NHERD_cov CovFull C covariance confidence val =
     (let v = covariance * val
      in covariance - (v * v * (C * C * confidence + 2 * C) / (1 + C * confidence) ^ 2))"
| "NHERD_cov CovExact C covariance confidence val =
     covariance / (1 + C * val * val * covariance) ^ 2"
| "NHERD_cov CovProject C covariance confidence val =
     1 / ((1 / covariance) + (2 * C + C * C * confidence) * val * val)"
| "NHERD_cov CovDrop C covariance confidence val =
     (let v = ((covariance * val) ^ 2 * (C * C * confidence + 2 * C) / (1 + C * confidence) ^ 2)
      in covariance - v)"

definition NHERD_suffer_loss :: "real \<Rightarrow> int \<Rightarrow> real" where
  "NHERD_suffer_loss margin label = margin * real_of_int label"

definition NHERD_compute_margin :: "NHERD \<Rightarrow> real list \<Rightarrow> error + real" where
  "NHERD_compute_margin s x = dot (NHERD_means s) x"

definition NHERD_confidence_body :: "NHERD \<Rightarrow> nat \<Rightarrow> real \<Rightarrow> real \<Rightarrow> error + real" where
  "NHERD_confidence_body s index val confidence =
     (if index < length (NHERD_covariances s)
      then Inr (confidence + NHERD_covariances s ! index * val * val)
      else Inl EigenIndexAssert)"

definition NHERD_compute_confidence :: "visits \<Rightarrow> NHERD \<Rightarrow> real list \<Rightarrow> error + real" where
  "NHERD_compute_confidence vis s feature = enumerate_from vis 0 feature (NHERD_confidence_body s) 0"

definition NHERD_update_body :: "int \<Rightarrow> real \<Rightarrow> real \<Rightarrow> nat \<Rightarrow> real \<Rightarrow> NHERD \<Rightarrow> error + NHERD" where
  "NHERD_update_body label alpha confidence index val s =
     (if index < length (NHERD_means s) \<and> index < length (NHERD_covariances s)
      then
        (case NHERD_compute_covariance s of
           None \<Rightarrow> Inl BadFunctionCall
         | Some f \<Rightarrow>
             Inr (s\<lparr>NHERD_means := (NHERD_means s)[index :=
                       NHERD_means s ! index + alpha * real_of_int label * NHERD_covariances s ! index * val],
                    NHERD_covariances := (NHERD_covariances s)[index :=
                       NHERD_cov f (NHERD_kC s) (NHERD_covariances s ! index) confidence val]\<rparr>))
      else Inl EigenIndexAssert)"

definition NHERD_update :: "visits \<Rightarrow> NHERD \<Rightarrow> real list \<Rightarrow> int \<Rightarrow> error + (bool \<times> NHERD)" where
  "NHERD_update vis s feature label =
     (case NHERD_compute_margin s feature of
        Inl e \<Rightarrow> Inl e
      | Inr margin \<Rightarrow>
          if NHERD_suffer_loss margin label \<ge> 1 then Inr (False, s)
          else
            (case NHERD_compute_confidence vis s feature of
               Inl e \<Rightarrow> Inl e
             | Inr confidence \<Rightarrow>
                 (let alpha = max 0 (1 - real_of_int label * margin) / (confidence + 1 / NHERD_kC s)
                  in case enumerate_from vis 0 feature (NHERD_update_body label alpha confidence) s of
                       Inl e \<Rightarrow> Inl e
                     | Inr s' \<Rightarrow> Inr (True, s'))))"

definition NHERD_predict :: "NHERD \<Rightarrow> real list \<Rightarrow> error + int" where
  "NHERD_predict s x =
     (case NHERD_compute_margin s x of
        Inl e \<Rightarrow> Inl e
      | Inr m \<Rightarrow> Inr (if m > 0 then 1 else - 1))"

text \<open>What holds of every state an NHERD instance reaches when it is built with \<open>C > 0\<close> and a
  recognised selector: the closure is set, both vectors have the dimension and every
  covariance is positive.\<close>

definition NHERD_inv :: "NHERD \<Rightarrow> bool" where
  "NHERD_inv s \<longleftrightarrow>
     0 < NHERD_kC s \<and> NHERD_compute_covariance s \<noteq> None
     \<and> length (NHERD_means s) = NHERD_kDim s \<and> length (NHERD_covariances s) = NHERD_kDim s
     \<and> (\<forall>c \<in> set (NHERD_covariances s). 0 < c)"

section \<open>The factory (binary_oml_factory.hpp)\<close>

text \<open>
  What a \<^verbatim>\<open>BinaryOML*\<close> points to: an object of one of the concrete classes.
  Modelled from the spec: the classes \<^verbatim>\<open>AROW\<close> and \<^verbatim>\<open>SCW\<close> (\<^verbatim>\<open>arow.hpp\<close> and \<^verbatim>\<open>scw.hpp\<close>
  are not among the sources) are kept as their constructor arguments, and \<^verbatim>\<open>name()\<close> of
  \<^verbatim>\<open>ADAM\<close>, \<^verbatim>\<open>AROW\<close> and \<^verbatim>\<open>SCW\<close> as the static identifier of the class.
\<close>

datatype BinaryOML =
    Obj_ADAGRAD_RDA ADAGRAD_RDA
  | Obj_ADAM ADAM
  | Obj_AROW nat real
  | Obj_NHERD NHERD
  | Obj_PA PA
  | Obj_SCW nat real real

fun name :: "BinaryOML \<Rightarrow> string" where
  "name (Obj_ADAGRAD_RDA _) = ''ADAGRAD_RDA''"
| "name (Obj_ADAM _) = ''ADAM''"
| "name (Obj_AROW _ _) = ''AROW''"
| "name (Obj_NHERD _) = ''NHERD''"
| "name (Obj_PA _) = ''PA''"
| "name (Obj_SCW _ _ _) = ''SCW''"

text \<open>The implicit conversion of a \<^verbatim>\<open>double\<close> argument to an \<^verbatim>\<open>int\<close> parameter drops the
  fraction.\<close>

definition double_to_int :: "real \<Rightarrow> int" where
  "double_to_int r = (if r \<ge> 0 then \<lfloor>r\<rfloor> else \<lceil>r\<rceil>)"

text \<open>A creator is the object its constructor hands to \<^verbatim>\<open>BinaryOMLCreator\<close>, which
  \<^verbatim>\<open>FactoryMethod\<close> returns.\<close>

definition BinaryADAGRADRDACreator :: "nat \<Rightarrow> real \<Rightarrow> real \<Rightarrow> error + BinaryOML" where
  "BinaryADAGRADRDACreator dimension eta lambda =
     (case ADAGRAD_RDA_ctor dimension eta lambda of Inl e \<Rightarrow> Inl e | Inr p \<Rightarrow> Inr (Obj_ADAGRAD_RDA p))"

definition BinaryADAMCreator :: "nat \<Rightarrow> error + BinaryOML" where
  "BinaryADAMCreator dimension =
     (case ADAM_ctor dimension of Inl e \<Rightarrow> Inl e | Inr p \<Rightarrow> Inr (Obj_ADAM p))"

definition BinaryAROWCreator :: "nat \<Rightarrow> real \<Rightarrow> error + BinaryOML" where
  "BinaryAROWCreator dimension r = Inr (Obj_AROW dimension r)"

definition BinaryNHERDCreator :: "nat \<Rightarrow> real \<Rightarrow> int \<Rightarrow> error + BinaryOML" where
  "BinaryNHERDCreator dimension c diagonal =
     (case NHERD_ctor dimension c diagonal of Inl e \<Rightarrow> Inl e | Inr p \<Rightarrow> Inr (Obj_NHERD p))"

definition BinaryPACreator :: "nat \<Rightarrow> real \<Rightarrow> int \<Rightarrow> error + BinaryOML" where
  "BinaryPACreator dimension c select =
     (case PA_ctor dimension c select of Inl e \<Rightarrow> Inl e | Inr p \<Rightarrow> Inr (Obj_PA p))"

definition BinarySCWCreator :: "nat \<Rightarrow> real \<Rightarrow> real \<Rightarrow> error + BinaryOML" where
  "BinarySCWCreator dimension c eta =
     (case PA_ctor dimension c (double_to_int eta) of Inl e \<Rightarrow> Inl e | Inr p \<Rightarrow> Inr (Obj_PA p))"

section \<open>The step size as the specification words it\<close>

text \<open>The squared Euclidean norm of a feature vector, and the step sizes of PA-0 and PA-II
  as the specification states them: one step size for the whole vector.\<close>

definition squared_norm :: "real list \<Rightarrow> real" where
  "squared_norm x = sum_list (map (\<lambda>v. v ^ 2) x)"

definition spec_tau_PA :: "real \<Rightarrow> real list \<Rightarrow> real" where
  "spec_tau_PA loss x = (if squared_norm x = 0 then 0 else loss / squared_norm x)"

definition spec_tau_PA2 :: "real \<Rightarrow> real \<Rightarrow> real list \<Rightarrow> real" where
  "spec_tau_PA2 C loss x = loss / (squared_norm x + 1 / (2 * C))"

section \<open>Vectors\<close>

lemma dot_zero: "sum_list (map2 (*) (replicate n (0 :: real)) x) = 0"
  by (induction n arbitrary: x) (simp_all add: zip_Cons1 split: list.splits)

lemma not_visited_zero: "\<not> visited vis v \<Longrightarrow> v = 0"
  by (cases vis) simp_all

lemma visited_nonzero: "v \<noteq> 0 \<Longrightarrow> visited vis v"
  by (cases vis) simp_all

lemma nth_Cons_shift: "i < j \<Longrightarrow> (v # vs) ! (j - i) = vs ! (j - Suc i)"
  by (simp add: Suc_diff_Suc)

section \<open>The update loop of PA, coordinate by coordinate\<close>


lemma PA_loop:
  assumes "PA_compute_tau s = Some f" and "i + length vs \<le> length (PA_weight s)"
  shows "\<exists>w'. enumerate_from vis i vs (PA_update_body y loss) s = Inr (s\<lparr>PA_weight := w'\<rparr>)
           \<and> length w' = length (PA_weight s)
           \<and> (\<forall>j < length w'. w' ! j =
                 (if i \<le> j \<and> j < i + length vs
                  then PA_weight s ! j + PA_tau f (PA_kC s) (vs ! (j - i)) loss * real_of_int y * vs ! (j - i)
                  else PA_weight s ! j))"
  using assms
proof (induction vs arbitrary: i s)
  case Nil
  have "s\<lparr>PA_weight := PA_weight s\<rparr> = s" by simp
  then show ?case by (intro exI [of _ "PA_weight s"]) simp
next
  case (Cons v vs)
  let ?s1 = "s\<lparr>PA_weight := (PA_weight s)[i := PA_weight s ! i + PA_tau f (PA_kC s) v loss * real_of_int y * v]\<rparr>"
  have step: "enumerate_from vis i (v # vs) (PA_update_body y loss) s
                = enumerate_from vis (Suc i) vs (PA_update_body y loss) ?s1"
  proof (cases "visited vis v")
    case True
    with Cons.prems show ?thesis by (simp add: PA_update_body_def)
  next
    case False
    then have "v = 0" by (rule not_visited_zero)
    then have "?s1 = s" by simp
    with False show ?thesis by simp
  qed
  have "PA_compute_tau ?s1 = Some f" and "Suc i + length vs \<le> length (PA_weight ?s1)"
    using Cons.prems by simp_all
  from Cons.IH [OF this] obtain w' where
    run: "enumerate_from vis (Suc i) vs (PA_update_body y loss) ?s1 = Inr (?s1\<lparr>PA_weight := w'\<rparr>)"
    and len: "length w' = length (PA_weight ?s1)"
    and pt: "\<forall>j < length w'. w' ! j =
                 (if Suc i \<le> j \<and> j < Suc i + length vs
                  then PA_weight ?s1 ! j + PA_tau f (PA_kC ?s1) (vs ! (j - Suc i)) loss * real_of_int y * vs ! (j - Suc i)
                  else PA_weight ?s1 ! j)"
    by blast
  have "enumerate_from vis i (v # vs) (PA_update_body y loss) s = Inr (?s1\<lparr>PA_weight := w'\<rparr>)"
    unfolding step by (rule run)
  then have "enumerate_from vis i (v # vs) (PA_update_body y loss) s = Inr (s\<lparr>PA_weight := w'\<rparr>)"
    by (simp del: enumerate_from.simps)
  moreover have "length w' = length (PA_weight s)"
    using len by simp
  moreover have "\<forall>j < length w'. w' ! j =
                 (if i \<le> j \<and> j < i + length (v # vs)
                  then PA_weight s ! j + PA_tau f (PA_kC s) ((v # vs) ! (j - i)) loss * real_of_int y * (v # vs) ! (j - i)
                  else PA_weight s ! j)"
  proof (intro allI impI)
    fix j assume j: "j < length w'"
    consider "j < i" | "j = i" | "i < j"
      by linarith
    then show "w' ! j =
                 (if i \<le> j \<and> j < i + length (v # vs)
                  then PA_weight s ! j + PA_tau f (PA_kC s) ((v # vs) ! (j - i)) loss * real_of_int y * (v # vs) ! (j - i)
                  else PA_weight s ! j)"
    proof cases
      case 1
      with pt j show ?thesis by simp
    next
      case 2
      with pt j len show ?thesis by simp
    next
      case 3
      then have "j - i = Suc (j - Suc i)" by simp
      with 3 pt j show ?thesis by simp
    qed
  qed
  ultimately show ?case by blast
qed


lemma PA_update_map2:
  assumes "PA_compute_tau s = Some f" and "length x = length (PA_weight s)"
  shows "PA_update vis s x y =
           Inr (True, s\<lparr>PA_weight :=
             map2 (\<lambda>w v. w + PA_tau f (PA_kC s) v
                      (max 0 (1 - real_of_int y * sum_list (map2 (*) (PA_weight s) x))) * real_of_int y * v)
               (PA_weight s) x\<rparr>)"
proof -
  define loss where "loss = max 0 (1 - real_of_int y * sum_list (map2 (*) (PA_weight s) x))"
  have loss: "PA_suffer_loss s x y = Inr loss"
    using assms(2) by (simp add: PA_suffer_loss_def dot_def loss_def)
  from assms have "0 + length x \<le> length (PA_weight s)" by simp
  from PA_loop [OF assms(1) this, of vis y loss] obtain w' where
    run: "enumerate_from vis 0 x (PA_update_body y loss) s = Inr (s\<lparr>PA_weight := w'\<rparr>)"
    and len: "length w' = length (PA_weight s)"
    and pt: "\<forall>j < length w'. w' ! j =
                 (if 0 \<le> j \<and> j < 0 + length x
                  then PA_weight s ! j + PA_tau f (PA_kC s) (x ! (j - 0)) loss * real_of_int y * x ! (j - 0)
                  else PA_weight s ! j)"
    by blast
  have "w' = map2 (\<lambda>w v. w + PA_tau f (PA_kC s) v loss * real_of_int y * v) (PA_weight s) x"
    using pt len assms(2) by (intro nth_equalityI) simp_all
  with loss run show ?thesis
    by (simp add: PA_update_def loss_def)
qed

lemma PA_ctor_closure:
  "PA_ctor d C k = Inr s \<Longrightarrow> PA_compute_tau s = PA_switch k"
  by (auto simp: PA_ctor_def)

lemma PA_tau_PA: "PA_tau TauPA C v l = (if v = 0 then 0 else l / v ^ 2)"
  by simp

lemma PA_tau_PA2: "PA_tau TauPA2 C v l = l / (v ^ 2 + C / 2)"
  by simp

section \<open>PA-0: the step size of each coordinate\<close>

text \<open>
  C2, as the code has it. For a PA instance whose closure is the one of selector 0 and a
  feature vector \<open>x\<close> of the model's dimension, one \<^verbatim>\<open>update\<close> call returns true and adds
  \<open>tau_i * y * x[i]\<close> to every coordinate \<open>i\<close> of the weight, where the step size is computed
  for each coordinate from its own entry: \<open>tau_i = loss / x[i]\<^sup>2\<close>, with the hinge loss
  \<open>max(0, 1 - y * (w . x))\<close> of the whole vector, and \<open>tau_i = 0\<close> when \<open>x[i] = 0\<close>.
  Nothing else of the instance changes. The result is the same under both readings of the
  iteration, since a zero entry adds nothing.
\<close>

theorem PA0_update_per_coordinate:
  assumes "PA_compute_tau s = Some TauPA" and "length x = length (PA_weight s)"
  shows "PA_update vis s x y =
           Inr (True, s\<lparr>PA_weight :=
             map2 (\<lambda>w v. w + (if v = 0 then 0
                               else max 0 (1 - real_of_int y * sum_list (map2 (*) (PA_weight s) x)) / v ^ 2)
                              * real_of_int y * v)
               (PA_weight s) x\<rparr>)"
  using PA_update_map2 [OF assms, of vis y] by (simp only: PA_tau_PA)

text \<open>The theorem at the instance built by \<^verbatim>\<open>PA(2, 1, 0)\<close>, on \<open>x = [1, 2]\<close> and \<open>y = 1\<close>,
  visiting the non-zero entries: the loss is 1 and the weight becomes \<open>[1, 1/2]\<close>.\<close>

theorem PA0_update_per_coordinate_witness:
  "PA_ctor 2 1 0 = Inr \<lparr>PA_kDim = 2, PA_kC = 1, PA_kSelect = 0, PA_weight = [0, 0], PA_compute_tau = Some TauPA\<rparr>
   \<and> PA_update NonZeroEntries \<lparr>PA_kDim = 2, PA_kC = 1, PA_kSelect = 0, PA_weight = [0, 0], PA_compute_tau = Some TauPA\<rparr> [1, 2] 1
       = Inr (True, \<lparr>PA_kDim = 2, PA_kC = 1, PA_kSelect = 0, PA_weight = [1, 1 / 2], PA_compute_tau = Some TauPA\<rparr>)"
  using PA0_update_per_coordinate
    [where s = "\<lparr>PA_kDim = 2, PA_kC = 1, PA_kSelect = 0, PA_weight = [0, 0], PA_compute_tau = Some TauPA\<rparr>" and x = "[1, 2]" and vis = NonZeroEntries and y = 1]
  by (simp add: PA_ctor_def PA_switch_def numeral_2_eq_2)

text \<open>
  C2 as the specification states it fails: on the fresh PA-0 model of dimension 2 and
  \<open>x = [1, 2]\<close>, \<open>y = 1\<close> the loss is 1 and the squared norm is 5, so the single step size
  would be \<open>1 / 5\<close> and the weight \<open>[1/5, 2/5]\<close>; the code leaves \<open>[1, 1/2]\<close>, under
  both readings of the iteration.
\<close>

theorem PA0_single_tau_counterexample:
  "PA_ctor 2 1 0 = Inr \<lparr>PA_kDim = 2, PA_kC = 1, PA_kSelect = 0, PA_weight = [0, 0], PA_compute_tau = Some TauPA\<rparr>
   \<and> PA_suffer_loss \<lparr>PA_kDim = 2, PA_kC = 1, PA_kSelect = 0, PA_weight = [0, 0], PA_compute_tau = Some TauPA\<rparr> [1, 2] 1 = Inr 1
   \<and> spec_tau_PA 1 [1, 2] = 1 / 5
   \<and> PA_update EveryEntry \<lparr>PA_kDim = 2, PA_kC = 1, PA_kSelect = 0, PA_weight = [0, 0], PA_compute_tau = Some TauPA\<rparr> [1, 2] 1
       = Inr (True, \<lparr>PA_kDim = 2, PA_kC = 1, PA_kSelect = 0, PA_weight = [1, 1 / 2], PA_compute_tau = Some TauPA\<rparr>)
   \<and> PA_update NonZeroEntries \<lparr>PA_kDim = 2, PA_kC = 1, PA_kSelect = 0, PA_weight = [0, 0], PA_compute_tau = Some TauPA\<rparr> [1, 2] 1
       = Inr (True, \<lparr>PA_kDim = 2, PA_kC = 1, PA_kSelect = 0, PA_weight = [1, 1 / 2], PA_compute_tau = Some TauPA\<rparr>)
   \<and> [1, 1 / 2] \<noteq> [0 + spec_tau_PA 1 [1, 2] * real_of_int 1 * 1, 0 + spec_tau_PA 1 [1, 2] * real_of_int 1 * 2]"
  by (simp add: PA_ctor_def PA_switch_def PA_suffer_loss_def dot_def squared_norm_def spec_tau_PA_def
      PA_update_def PA_update_body_def numeral_2_eq_2)

section \<open>PA-II: the step size of each coordinate\<close>

text \<open>
  C3, as the code has it by design. For a PA instance whose closure is the one of selector 2,
  with \<open>C > 0\<close>, and a feature vector \<open>x\<close> of the model's dimension, one \<^verbatim>\<open>update\<close> call
  returns true and adds \<open>tau_i * y * x[i]\<close> to every coordinate \<open>i\<close> of the weight, where the
  step size is computed for each coordinate from its own entry, not from the norm of \<open>x\<close>:
  \<open>tau_i = loss / (x[i]\<^sup>2 + r)\<close>, with the hinge loss of the whole vector and one positive
  regularisation term \<open>r\<close>, the same for every instance with this \<open>C\<close>, every feature
  vector and every label. For \<open>C = 1\<close> the term is \<open>1 / (2 C)\<close>. Nothing else of the
  instance changes, and the result is the same under both readings of the iteration.
  The value of \<open>r\<close> for the other \<open>C\<close> is left open here: the closure computes it as
  \<^verbatim>\<open>1.0 / 2 * kC\<close>, and whether that is the \<open>1 / (2 C)\<close> of PA-II is not a matter of the
  per-coordinate design.
\<close>

theorem PA2_update_per_coordinate:
  assumes "0 < C"
  shows "\<exists>r. 0 < r \<and> (C = 1 \<longrightarrow> r = 1 / (2 * C))
           \<and> (\<forall>vis s x y.
                 PA_compute_tau s = Some TauPA2 \<and> PA_kC s = C \<and> length x = length (PA_weight s) \<longrightarrow>
                   PA_update vis s x y =
                     Inr (True, s\<lparr>PA_weight :=
                       map2 (\<lambda>w v. w + max 0 (1 - real_of_int y * sum_list (map2 (*) (PA_weight s) x)) / (v ^ 2 + r)
                                        * real_of_int y * v)
                         (PA_weight s) x\<rparr>))"
proof (intro exI [of _ "C / 2"] conjI allI impI)
  show "0 < C / 2" using assms by simp
  show "C / 2 = 1 / (2 * C)" if "C = 1" using that by simp
next
  fix vis and s :: PA and x :: "real list" and y :: int
  assume h: "PA_compute_tau s = Some TauPA2 \<and> PA_kC s = C \<and> length x = length (PA_weight s)"
  then have f: "PA_compute_tau s = Some TauPA2" and l: "length x = length (PA_weight s)"
    and C: "PA_kC s = C"
    by simp_all
  from PA_update_map2 [OF f l, of vis y]
  show "PA_update vis s x y =
          Inr (True, s\<lparr>PA_weight :=
            map2 (\<lambda>w v. w + max 0 (1 - real_of_int y * sum_list (map2 (*) (PA_weight s) x)) / (v ^ 2 + C / 2)
                             * real_of_int y * v)
              (PA_weight s) x\<rparr>)"
    by (simp only: PA_tau_PA2 C)
qed

text \<open>The theorem at \<open>C = 1\<close>, at the instance built by \<^verbatim>\<open>PA(2, 1, 2)\<close>, on \<open>x = [1, 2]\<close>
  and \<open>y = 1\<close>: the loss is 1, the term is \<open>1/2\<close>, and the two coordinates move by
  \<open>1 / (1 + 1/2) * 1\<close> and \<open>1 / (4 + 1/2) * 2\<close>.\<close>

theorem PA2_update_per_coordinate_witness:
  "PA_ctor 2 1 2 = Inr \<lparr>PA_kDim = 2, PA_kC = 1, PA_kSelect = 2, PA_weight = [0, 0], PA_compute_tau = Some TauPA2\<rparr>
   \<and> PA_update NonZeroEntries \<lparr>PA_kDim = 2, PA_kC = 1, PA_kSelect = 2, PA_weight = [0, 0], PA_compute_tau = Some TauPA2\<rparr> [1, 2] 1
             = Inr (True, \<lparr>PA_kDim = 2, PA_kC = 1, PA_kSelect = 2, PA_weight = [2 / 3, 4 / 9], PA_compute_tau = Some TauPA2\<rparr>)"
proof -
  let ?s = "\<lparr>PA_kDim = 2, PA_kC = 1, PA_kSelect = 2, PA_weight = [0, 0], PA_compute_tau = Some TauPA2\<rparr>"
  have "(0 :: real) < 1" by simp
  from PA2_update_per_coordinate [OF this] obtain r :: real where r: "r = 1 / (2 * 1)"
    and every: "\<forall>vis s x y.
                 PA_compute_tau s = Some TauPA2 \<and> PA_kC s = 1 \<and> length x = length (PA_weight s) \<longrightarrow>
                   PA_update vis s x y =
                     Inr (True, s\<lparr>PA_weight :=
                       map2 (\<lambda>w v. w + max 0 (1 - real_of_int y * sum_list (map2 (*) (PA_weight s) x)) / (v ^ 2 + r)
                                        * real_of_int y * v)
                         (PA_weight s) x\<rparr>)"
    by blast
  from every [rule_format, of ?s "[1, 2]" NonZeroEntries 1]
  have "PA_update NonZeroEntries ?s [1, 2] 1 = Inr (True, ?s\<lparr>PA_weight := [2 / 3, 4 / 9]\<rparr>)"
    by (simp add: r)
  then show ?thesis
    by (simp add: PA_ctor_def PA_switch_def numeral_2_eq_2)
qed

text \<open>
  C3 as the specification states it fails where its regularisation term and the code's
  agree: with \<open>C = 1\<close> both \<open>1 / (2 C)\<close> and the term of the closure are \<open>1/2\<close>. On the fresh
  PA-II model of dimension 2 and \<open>x = [1, 2]\<close>, \<open>y = 1\<close> the loss is 1 and the squared norm
  is 5, so the stated step size is \<open>1 / (5 + 1/2) = 2/11\<close> and the weight would be
  \<open>[2/11, 4/11]\<close>; the code leaves \<open>[2/3, 4/9]\<close>, under both readings of the iteration.
\<close>

theorem PA2_single_tau_counterexample:
  "PA_ctor 2 1 2 = Inr \<lparr>PA_kDim = 2, PA_kC = 1, PA_kSelect = 2, PA_weight = [0, 0], PA_compute_tau = Some TauPA2\<rparr>
   \<and> PA_suffer_loss \<lparr>PA_kDim = 2, PA_kC = 1, PA_kSelect = 2, PA_weight = [0, 0], PA_compute_tau = Some TauPA2\<rparr> [1, 2] 1 = Inr 1
   \<and> spec_tau_PA2 1 1 [1, 2] = 2 / 11
   \<and> PA_update EveryEntry \<lparr>PA_kDim = 2, PA_kC = 1, PA_kSelect = 2, PA_weight = [0, 0], PA_compute_tau = Some TauPA2\<rparr> [1, 2] 1
       = Inr (True, \<lparr>PA_kDim = 2, PA_kC = 1, PA_kSelect = 2, PA_weight = [2 / 3, 4 / 9], PA_compute_tau = Some TauPA2\<rparr>)
   \<and> PA_update NonZeroEntries \<lparr>PA_kDim = 2, PA_kC = 1, PA_kSelect = 2, PA_weight = [0, 0], PA_compute_tau = Some TauPA2\<rparr> [1, 2] 1
       = Inr (True, \<lparr>PA_kDim = 2, PA_kC = 1, PA_kSelect = 2, PA_weight = [2 / 3, 4 / 9], PA_compute_tau = Some TauPA2\<rparr>)
   \<and> [2 / 3, 4 / 9] \<noteq> [0 + spec_tau_PA2 1 1 [1, 2] * real_of_int 1 * 1, 0 + spec_tau_PA2 1 1 [1, 2] * real_of_int 1 * 2]"
  by (simp add: PA_ctor_def PA_switch_def PA_suffer_loss_def dot_def squared_norm_def spec_tau_PA2_def
      PA_update_def PA_update_body_def numeral_2_eq_2)

section \<open>Loading a saved PA model\<close>

text \<open>Loading the archive of a model into an instance that holds the same closure gives the
  saved model back, field by field.\<close>

lemma PA_load_save_same_closure:
  assumes "PA_compute_tau t = PA_compute_tau s"
  shows "PA_load t (PA_save s) = s"
  using assms by (cases s, cases t) (simp add: PA_load_def PA_save_def)

text \<open>
  C1 at a failing input. The model saved is the fresh \<^verbatim>\<open>PA(2, 0.5, 0)\<close>; its archive is
  loaded into the fresh \<^verbatim>\<open>PA(2, 0.5, 2)\<close>. \<^verbatim>\<open>load\<close> stores the archived selector 0 in
  \<^verbatim>\<open>kSelect\<close> and keeps the closure of PA-II that the constructor chose. On the update with
  \<open>x = [1, 2]\<close> and \<open>y = 1\<close> the saved model reaches the weight \<open>[1, 1/2]\<close> and the loaded
  one \<open>[4/5, 8/17]\<close>, and on the probe \<open>[1, -1.9]\<close> the first predicts \<open>+1\<close>, the second
  \<open>-1\<close>. The feature vector has no zero entry, so both readings of the iteration agree.
\<close>

theorem PA_load_keeps_constructed_closure:
  "PA_ctor 2 (1 / 2) 0 = Inr \<lparr>PA_kDim = 2, PA_kC = 1 / 2, PA_kSelect = 0, PA_weight = [0, 0], PA_compute_tau = Some TauPA\<rparr>
   \<and> PA_ctor 2 (1 / 2) 2 = Inr \<lparr>PA_kDim = 2, PA_kC = 1 / 2, PA_kSelect = 2, PA_weight = [0, 0], PA_compute_tau = Some TauPA2\<rparr>
   \<and> PA_load \<lparr>PA_kDim = 2, PA_kC = 1 / 2, PA_kSelect = 2, PA_weight = [0, 0], PA_compute_tau = Some TauPA2\<rparr>
        (PA_save \<lparr>PA_kDim = 2, PA_kC = 1 / 2, PA_kSelect = 0, PA_weight = [0, 0], PA_compute_tau = Some TauPA\<rparr>)
       = \<lparr>PA_kDim = 2, PA_kC = 1 / 2, PA_kSelect = 0, PA_weight = [0, 0], PA_compute_tau = Some TauPA2\<rparr>
   \<and> PA_update vis \<lparr>PA_kDim = 2, PA_kC = 1 / 2, PA_kSelect = 0, PA_weight = [0, 0], PA_compute_tau = Some TauPA\<rparr> [1, 2] 1
       = Inr (True, \<lparr>PA_kDim = 2, PA_kC = 1 / 2, PA_kSelect = 0, PA_weight = [1, 1 / 2], PA_compute_tau = Some TauPA\<rparr>)
   \<and> PA_update vis \<lparr>PA_kDim = 2, PA_kC = 1 / 2, PA_kSelect = 0, PA_weight = [0, 0], PA_compute_tau = Some TauPA2\<rparr> [1, 2] 1
       = Inr (True, \<lparr>PA_kDim = 2, PA_kC = 1 / 2, PA_kSelect = 0, PA_weight = [4 / 5, 8 / 17], PA_compute_tau = Some TauPA2\<rparr>)
   \<and> PA_predict \<lparr>PA_kDim = 2, PA_kC = 1 / 2, PA_kSelect = 0, PA_weight = [1, 1 / 2], PA_compute_tau = Some TauPA\<rparr> [1, - (19 / 10)] = Inr 1
   \<and> PA_predict \<lparr>PA_kDim = 2, PA_kC = 1 / 2, PA_kSelect = 0, PA_weight = [4 / 5, 8 / 17], PA_compute_tau = Some TauPA2\<rparr> [1, - (19 / 10)] = Inr (- 1)"
  by (simp add: PA_ctor_def PA_switch_def PA_load_def PA_save_def PA_suffer_loss_def dot_def
      PA_update_def PA_update_body_def PA_predict_def PA_compute_margin_def numeral_2_eq_2
      visited_nonzero)

section \<open>The creators\<close>

text \<open>
  C4 at a failing input: the creator for SCW, given dimension 2, \<open>C = 0.5\<close> and
  \<open>eta = 1.0\<close>, holds a PA object (whose selector is \<open>eta\<close> converted to \<^verbatim>\<open>int\<close>), and
  its \<^verbatim>\<open>name()\<close> is \<open>PA\<close>.
\<close>

theorem BinarySCWCreator_makes_PA:
  "BinarySCWCreator 2 (1 / 2) 1
     = Inr (Obj_PA \<lparr>PA_kDim = 2, PA_kC = 1 / 2, PA_kSelect = 1, PA_weight = [0, 0], PA_compute_tau = Some TauPA1\<rparr>)
   \<and> name (Obj_PA \<lparr>PA_kDim = 2, PA_kC = 1 / 2, PA_kSelect = 1, PA_weight = [0, 0], PA_compute_tau = Some TauPA1\<rparr>) = ''PA''"
  by (simp add: BinarySCWCreator_def PA_ctor_def PA_switch_def double_to_int_def numeral_2_eq_2)

section \<open>Construction\<close>

text \<open>
  C5 at failing inputs: the constructors of PA and NHERD return an instance for dimension 0,
  \<open>C = -1\<close> and the unrecognised selector 7. The PA instance built with selector 7 predicts;
  its first \<^verbatim>\<open>update\<close> on a non-empty vector calls the empty \<^verbatim>\<open>_compute_tau\<close>.
\<close>

theorem PA_NHERD_ctor_no_check:
  "PA_ctor 0 (- 1) 7 = Inr \<lparr>PA_kDim = 0, PA_kC = - 1, PA_kSelect = 7, PA_weight = [], PA_compute_tau = None\<rparr>
   \<and> NHERD_ctor 0 (- 1) 7
       = Inr \<lparr>NHERD_kDim = 0, NHERD_kC = - 1, NHERD_kDiagonal = 7, NHERD_covariances = [], NHERD_means = [],
              NHERD_compute_covariance = None\<rparr>
   \<and> PA_ctor 1 1 7 = Inr \<lparr>PA_kDim = 1, PA_kC = 1, PA_kSelect = 7, PA_weight = [0], PA_compute_tau = None\<rparr>
   \<and> PA_predict \<lparr>PA_kDim = 1, PA_kC = 1, PA_kSelect = 7, PA_weight = [0], PA_compute_tau = None\<rparr> [1] = Inr (- 1)
   \<and> PA_update vis \<lparr>PA_kDim = 1, PA_kC = 1, PA_kSelect = 7, PA_weight = [0], PA_compute_tau = None\<rparr> [1] 1 = Inl BadFunctionCall"
  by (simp add: PA_ctor_def PA_switch_def NHERD_ctor_def NHERD_switch_def PA_predict_def
      PA_compute_margin_def PA_update_def PA_suffer_loss_def PA_update_body_def dot_def
      visited_nonzero)

section \<open>Examples without loss change nothing\<close>

text \<open>
  C6. For AdaGrad-RDA and for ADAM, for every state, every feature vector \<open>x\<close> of the
  length of \<open>w\<close> and every label \<open>y\<close>: the hinge loss \<open>max(0, 1 - y * (w . x))\<close> is at most 0
  exactly when \<open>y * (w . x) \<ge> 1\<close>, and then \<^verbatim>\<open>update\<close> returns false and the state it
  leaves is the state it was given: \<open>w\<close>, \<open>g\<close> or \<open>m\<close>, \<open>h\<close> or \<open>v\<close> and the time step are
  unchanged.
\<close>

theorem skip_when_loss_not_positive:
  "(length x = length (RDA_w s) \<and> 1 \<le> real_of_int y * sum_list (map2 (*) (RDA_w s) x) \<longrightarrow>
      RDA_suffer_loss s x y = Inr 0 \<and> RDA_update vis s x y = Inr (False, s))
   \<and> (RDA_suffer_loss s x y = Inr loss \<and> loss \<le> 0 \<longrightarrow>
      1 \<le> real_of_int y * sum_list (map2 (*) (RDA_w s) x) \<and> RDA_update vis s x y = Inr (False, s))
   \<and> (length x = length (ADAM_w a) \<and> 1 \<le> real_of_int y * sum_list (map2 (*) (ADAM_w a) x) \<longrightarrow>
      ADAM_suffer_loss a x y = Inr 0 \<and> ADAM_update vis a x y = Inr (False, a))
   \<and> (ADAM_suffer_loss a x y = Inr loss \<and> loss \<le> 0 \<longrightarrow>
      1 \<le> real_of_int y * sum_list (map2 (*) (ADAM_w a) x) \<and> ADAM_update vis a x y = Inr (False, a))"
  by (auto simp: RDA_suffer_loss_def RDA_update_def ADAM_suffer_loss_def ADAM_update_def dot_def
      split: if_splits)

text \<open>The theorem on states with \<open>w = [1]\<close>, at \<open>x = [2]\<close> and \<open>y = 1\<close>, where
  \<open>y * (w . x) = 2\<close>.\<close>

theorem skip_when_loss_not_positive_witness:
  "RDA_update NonZeroEntries \<lparr>RDA_kDim = 1, RDA_kEta = 1, RDA_kLambda = 1 / 2, RDA_timestep = 1, RDA_w = [1], RDA_h = [1], RDA_g = [- 1]\<rparr> [2] 1
     = Inr (False, \<lparr>RDA_kDim = 1, RDA_kEta = 1, RDA_kLambda = 1 / 2, RDA_timestep = 1, RDA_w = [1], RDA_h = [1], RDA_g = [- 1]\<rparr>)
   \<and> RDA_suffer_loss \<lparr>RDA_kDim = 1, RDA_kEta = 1, RDA_kLambda = 1 / 2, RDA_timestep = 1, RDA_w = [1], RDA_h = [1], RDA_g = [- 1]\<rparr> [2] 1 = Inr 0
   \<and> ADAM_update NonZeroEntries \<lparr>ADAM_kDim = 1, ADAM_timestep = 1, ADAM_w = [1], ADAM_m = [- 1], ADAM_v = [1]\<rparr> [2] 1
     = Inr (False, \<lparr>ADAM_kDim = 1, ADAM_timestep = 1, ADAM_w = [1], ADAM_m = [- 1], ADAM_v = [1]\<rparr>)
   \<and> ADAM_suffer_loss \<lparr>ADAM_kDim = 1, ADAM_timestep = 1, ADAM_w = [1], ADAM_m = [- 1], ADAM_v = [1]\<rparr> [2] 1 = Inr 0"
  using skip_when_loss_not_positive
    [where x = "[2]" and s = "\<lparr>RDA_kDim = 1, RDA_kEta = 1, RDA_kLambda = 1 / 2, RDA_timestep = 1, RDA_w = [1], RDA_h = [1], RDA_g = [- 1]\<rparr>"
       and y = 1 and loss = 0 and a = "\<lparr>ADAM_kDim = 1, ADAM_timestep = 1, ADAM_w = [1], ADAM_m = [- 1], ADAM_v = [1]\<rparr>"
       and vis = NonZeroEntries]
  by simp

section \<open>Prediction\<close>

text \<open>
  C9. For PA, AdaGrad-RDA, ADAM and NHERD, for every state and every feature vector \<open>x\<close>
  of the length of the weight (mean) vector, \<^verbatim>\<open>predict\<close> returns \<open>+1\<close> if the margin, the
  dot product of the weight (mean) vector with \<open>x\<close>, is greater than 0, and \<open>-1\<close> otherwise.
  On a freshly constructed model of dimension \<open>d\<close>, \<^verbatim>\<open>predict\<close> of every vector of length
  \<open>d\<close>, the all-zero vector included, is \<open>-1\<close>.
\<close>

theorem predict_sign_of_margin:
  "(length x = length (PA_weight p) \<longrightarrow>
      PA_predict p x = Inr (if sum_list (map2 (*) (PA_weight p) x) > 0 then 1 else - 1))
   \<and> (length x = length (RDA_w r) \<longrightarrow>
      RDA_predict r x = Inr (if sum_list (map2 (*) (RDA_w r) x) > 0 then 1 else - 1))
   \<and> (length x = length (ADAM_w a) \<longrightarrow>
      ADAM_predict a x = Inr (if sum_list (map2 (*) (ADAM_w a) x) > 0 then 1 else - 1))
   \<and> (length x = length (NHERD_means n) \<longrightarrow>
      NHERD_predict n x = Inr (if sum_list (map2 (*) (NHERD_means n) x) > 0 then 1 else - 1))
   \<and> (PA_ctor d C select = Inr p0 \<and> length x = d \<longrightarrow> PA_predict p0 x = Inr (- 1))
   \<and> (ADAGRAD_RDA_ctor d eta lambda = Inr r0 \<and> length x = d \<longrightarrow> RDA_predict r0 x = Inr (- 1))
   \<and> (ADAM_ctor d = Inr a0 \<and> length x = d \<longrightarrow> ADAM_predict a0 x = Inr (- 1))
   \<and> (NHERD_ctor d C diagonal = Inr n0 \<and> length x = d \<longrightarrow> NHERD_predict n0 x = Inr (- 1))"
proof -
  have "PA_predict p x = Inr (if sum_list (map2 (*) (PA_weight p) x) > 0 then 1 else - 1)"
    if "length x = length (PA_weight p)" for p
    using that by (simp add: PA_predict_def PA_compute_margin_def dot_def)
  moreover have "RDA_predict r x = Inr (if sum_list (map2 (*) (RDA_w r) x) > 0 then 1 else - 1)"
    if "length x = length (RDA_w r)" for r
    using that by (simp add: RDA_predict_def RDA_calculate_margin_def dot_def)
  moreover have "ADAM_predict a x = Inr (if sum_list (map2 (*) (ADAM_w a) x) > 0 then 1 else - 1)"
    if "length x = length (ADAM_w a)" for a
    using that by (simp add: ADAM_predict_def ADAM_calculate_margin_def dot_def)
  moreover have "NHERD_predict n x = Inr (if sum_list (map2 (*) (NHERD_means n) x) > 0 then 1 else - 1)"
    if "length x = length (NHERD_means n)" for n
    using that by (simp add: NHERD_predict_def NHERD_compute_margin_def dot_def)
  moreover have "PA_predict p0 x = Inr (- 1)"
    if "PA_ctor d C select = Inr p0" "length x = d"
  proof -
    from that have "PA_weight p0 = replicate (length x) 0"
      by (auto simp: PA_ctor_def)
    then show ?thesis
      by (simp add: PA_predict_def PA_compute_margin_def dot_def dot_zero)
  qed
  moreover have "RDA_predict r0 x = Inr (- 1)"
    if "ADAGRAD_RDA_ctor d eta lambda = Inr r0" "length x = d"
  proof -
    from that have "RDA_w r0 = replicate (length x) 0"
      by (auto simp: ADAGRAD_RDA_ctor_def split: if_splits)
    then show ?thesis
      by (simp add: RDA_predict_def RDA_calculate_margin_def dot_def dot_zero)
  qed
  moreover have "ADAM_predict a0 x = Inr (- 1)"
    if "ADAM_ctor d = Inr a0" "length x = d"
  proof -
    from that have "ADAM_w a0 = replicate (length x) 0"
      by (auto simp: ADAM_ctor_def split: if_splits)
    then show ?thesis
      by (simp add: ADAM_predict_def ADAM_calculate_margin_def dot_def dot_zero)
  qed
  moreover have "NHERD_predict n0 x = Inr (- 1)"
    if "NHERD_ctor d C diagonal = Inr n0" "length x = d"
  proof -
    from that have "NHERD_means n0 = replicate (length x) 0"
      by (auto simp: NHERD_ctor_def)
    then show ?thesis
      by (simp add: NHERD_predict_def NHERD_compute_margin_def dot_def dot_zero)
  qed
  ultimately show ?thesis by blast
qed

text \<open>The theorem on states with non-zero weights, and on the four fresh models of
  dimension 2 at the all-zero vector.\<close>

theorem predict_sign_of_margin_witness:
  "PA_predict \<lparr>PA_kDim = 2, PA_kC = 1, PA_kSelect = 0, PA_weight = [1, 1 / 2], PA_compute_tau = Some TauPA\<rparr> [1, - 1] = Inr 1
   \<and> PA_predict \<lparr>PA_kDim = 2, PA_kC = 1, PA_kSelect = 0, PA_weight = [1, 1 / 2], PA_compute_tau = Some TauPA\<rparr> [1, - 2] = Inr (- 1)
   \<and> RDA_predict \<lparr>RDA_kDim = 1, RDA_kEta = 1, RDA_kLambda = 1 / 2, RDA_timestep = 1, RDA_w = [1 / 2], RDA_h = [1], RDA_g = [- 1]\<rparr> [3] = Inr 1
   \<and> ADAM_predict \<lparr>ADAM_kDim = 1, ADAM_timestep = 1, ADAM_w = [- 1], ADAM_m = [1], ADAM_v = [1]\<rparr> [3] = Inr (- 1)
   \<and> NHERD_predict \<lparr>NHERD_kDim = 1, NHERD_kC = 1, NHERD_kDiagonal = 0, NHERD_covariances = [1], NHERD_means = [2],
                     NHERD_compute_covariance = Some CovFull\<rparr> [3] = Inr 1
   \<and> PA_ctor 2 1 0 = Inr \<lparr>PA_kDim = 2, PA_kC = 1, PA_kSelect = 0, PA_weight = [0, 0], PA_compute_tau = Some TauPA\<rparr>
   \<and> PA_predict \<lparr>PA_kDim = 2, PA_kC = 1, PA_kSelect = 0, PA_weight = [0, 0], PA_compute_tau = Some TauPA\<rparr> [0, 0] = Inr (- 1)
   \<and> ADAGRAD_RDA_ctor 2 1 1 = Inr \<lparr>RDA_kDim = 2, RDA_kEta = 1, RDA_kLambda = 1, RDA_timestep = 0, RDA_w = [0, 0], RDA_h = [0, 0], RDA_g = [0, 0]\<rparr>
   \<and> RDA_predict \<lparr>RDA_kDim = 2, RDA_kEta = 1, RDA_kLambda = 1, RDA_timestep = 0, RDA_w = [0, 0], RDA_h = [0, 0], RDA_g = [0, 0]\<rparr> [0, 0] = Inr (- 1)
   \<and> ADAM_ctor 2 = Inr \<lparr>ADAM_kDim = 2, ADAM_timestep = 0, ADAM_w = [0, 0], ADAM_m = [0, 0], ADAM_v = [0, 0]\<rparr>
   \<and> ADAM_predict \<lparr>ADAM_kDim = 2, ADAM_timestep = 0, ADAM_w = [0, 0], ADAM_m = [0, 0], ADAM_v = [0, 0]\<rparr> [0, 0] = Inr (- 1)
   \<and> NHERD_ctor 2 1 0 = Inr \<lparr>NHERD_kDim = 2, NHERD_kC = 1, NHERD_kDiagonal = 0, NHERD_covariances = [1, 1], NHERD_means = [0, 0],
                     NHERD_compute_covariance = Some CovFull\<rparr>
   \<and> NHERD_predict \<lparr>NHERD_kDim = 2, NHERD_kC = 1, NHERD_kDiagonal = 0, NHERD_covariances = [1, 1], NHERD_means = [0, 0],
                     NHERD_compute_covariance = Some CovFull\<rparr> [0, 0] = Inr (- 1)"
proof -
  have c: "PA_ctor 2 1 0 = Inr \<lparr>PA_kDim = 2, PA_kC = 1, PA_kSelect = 0, PA_weight = [0, 0], PA_compute_tau = Some TauPA\<rparr>"
    "ADAGRAD_RDA_ctor 2 1 1 = Inr \<lparr>RDA_kDim = 2, RDA_kEta = 1, RDA_kLambda = 1, RDA_timestep = 0, RDA_w = [0, 0], RDA_h = [0, 0], RDA_g = [0, 0]\<rparr>"
    "ADAM_ctor 2 = Inr \<lparr>ADAM_kDim = 2, ADAM_timestep = 0, ADAM_w = [0, 0], ADAM_m = [0, 0], ADAM_v = [0, 0]\<rparr>"
    "NHERD_ctor 2 1 0 = Inr \<lparr>NHERD_kDim = 2, NHERD_kC = 1, NHERD_kDiagonal = 0, NHERD_covariances = [1, 1], NHERD_means = [0, 0],
                     NHERD_compute_covariance = Some CovFull\<rparr>"
    by (simp_all add: PA_ctor_def PA_switch_def ADAGRAD_RDA_ctor_def ADAM_ctor_def NHERD_ctor_def
        NHERD_switch_def numeral_2_eq_2)
  have l: "length [0 :: real, 0] = 2" by simp
  note t = predict_sign_of_margin
  have "PA_predict \<lparr>PA_kDim = 2, PA_kC = 1, PA_kSelect = 0, PA_weight = [1, 1 / 2], PA_compute_tau = Some TauPA\<rparr> [1, - 1] = Inr 1"
    using t [of "[1, - 1]" "\<lparr>PA_kDim = 2, PA_kC = 1, PA_kSelect = 0, PA_weight = [1, 1 / 2], PA_compute_tau = Some TauPA\<rparr>"]
    by simp
  moreover have "PA_predict \<lparr>PA_kDim = 2, PA_kC = 1, PA_kSelect = 0, PA_weight = [1, 1 / 2], PA_compute_tau = Some TauPA\<rparr> [1, - 2] = Inr (- 1)"
    using t [of "[1, - 2]" "\<lparr>PA_kDim = 2, PA_kC = 1, PA_kSelect = 0, PA_weight = [1, 1 / 2], PA_compute_tau = Some TauPA\<rparr>"]
    by simp
  moreover have "RDA_predict \<lparr>RDA_kDim = 1, RDA_kEta = 1, RDA_kLambda = 1 / 2, RDA_timestep = 1, RDA_w = [1 / 2], RDA_h = [1], RDA_g = [- 1]\<rparr> [3] = Inr 1"
    "ADAM_predict \<lparr>ADAM_kDim = 1, ADAM_timestep = 1, ADAM_w = [- 1], ADAM_m = [1], ADAM_v = [1]\<rparr> [3] = Inr (- 1)"
    "NHERD_predict \<lparr>NHERD_kDim = 1, NHERD_kC = 1, NHERD_kDiagonal = 0, NHERD_covariances = [1], NHERD_means = [2],
                     NHERD_compute_covariance = Some CovFull\<rparr> [3] = Inr 1"
    using t [of "[3]" _ "\<lparr>RDA_kDim = 1, RDA_kEta = 1, RDA_kLambda = 1 / 2, RDA_timestep = 1, RDA_w = [1 / 2], RDA_h = [1], RDA_g = [- 1]\<rparr>"
               "\<lparr>ADAM_kDim = 1, ADAM_timestep = 1, ADAM_w = [- 1], ADAM_m = [1], ADAM_v = [1]\<rparr>"
               "\<lparr>NHERD_kDim = 1, NHERD_kC = 1, NHERD_kDiagonal = 0, NHERD_covariances = [1], NHERD_means = [2],
                     NHERD_compute_covariance = Some CovFull\<rparr>"]
    by simp_all
  moreover have "PA_predict \<lparr>PA_kDim = 2, PA_kC = 1, PA_kSelect = 0, PA_weight = [0, 0], PA_compute_tau = Some TauPA\<rparr> [0, 0] = Inr (- 1)"
    "RDA_predict \<lparr>RDA_kDim = 2, RDA_kEta = 1, RDA_kLambda = 1, RDA_timestep = 0, RDA_w = [0, 0], RDA_h = [0, 0], RDA_g = [0, 0]\<rparr> [0, 0] = Inr (- 1)"
    "ADAM_predict \<lparr>ADAM_kDim = 2, ADAM_timestep = 0, ADAM_w = [0, 0], ADAM_m = [0, 0], ADAM_v = [0, 0]\<rparr> [0, 0] = Inr (- 1)"
    "NHERD_predict \<lparr>NHERD_kDim = 2, NHERD_kC = 1, NHERD_kDiagonal = 0, NHERD_covariances = [1, 1], NHERD_means = [0, 0],
                     NHERD_compute_covariance = Some CovFull\<rparr> [0, 0] = Inr (- 1)"
    using t [of "[0, 0]" _ _ _ _ 2 1 0 _ 1 1 _ _ 0] c l
    by blast+
  ultimately show ?thesis using c by blast
qed

section \<open>The update loop of AdaGrad-RDA, coordinate by coordinate\<close>

lemma RDA_loop:
  assumes "i + length vs \<le> length (RDA_g s)" and "length (RDA_h s) = length (RDA_g s)"
    and "length (RDA_w s) = length (RDA_g s)"
  shows "\<exists>g' h' w'. enumerate_from vis i vs (RDA_update_body y) s = Inr (s\<lparr>RDA_w := w', RDA_h := h', RDA_g := g'\<rparr>)
           \<and> length g' = length (RDA_g s) \<and> length h' = length (RDA_g s) \<and> length w' = length (RDA_g s)
           \<and> (\<forall>j < length (RDA_g s).
                 g' ! j = (if i \<le> j \<and> j < i + length vs
                           then RDA_g s ! j + real_of_int (- y) * vs ! (j - i) else RDA_g s ! j)
               \<and> h' ! j = (if i \<le> j \<and> j < i + length vs
                           then RDA_h s ! j + real_of_int (- y) * vs ! (j - i) * (real_of_int (- y) * vs ! (j - i))
                           else RDA_h s ! j)
               \<and> w' ! j = (if i \<le> j \<and> j < i + length vs \<and> visited vis (vs ! (j - i))
                           then RDA_weight (RDA_kEta s) (RDA_kLambda s) (RDA_timestep s)
                                  (RDA_g s ! j + real_of_int (- y) * vs ! (j - i))
                                  (RDA_h s ! j + real_of_int (- y) * vs ! (j - i) * (real_of_int (- y) * vs ! (j - i)))
                           else RDA_w s ! j))"
  using assms
proof (induction vs arbitrary: i s)
  case Nil
  have "s\<lparr>RDA_w := RDA_w s, RDA_h := RDA_h s, RDA_g := RDA_g s\<rparr> = s" by simp
  with Nil show ?case
    by (intro exI [of _ "RDA_g s"] exI [of _ "RDA_h s"] exI [of _ "RDA_w s"]) simp
next
  case (Cons v vs)
  define gi where "gi = RDA_g s ! i + real_of_int (- y) * v"
  define hi where "hi = RDA_h s ! i + real_of_int (- y) * v * (real_of_int (- y) * v)"
  define wi where "wi = (if visited vis v
                         then RDA_weight (RDA_kEta s) (RDA_kLambda s) (RDA_timestep s) gi hi
                         else RDA_w s ! i)"
  define s1 where "s1 = s\<lparr>RDA_g := (RDA_g s)[i := gi], RDA_h := (RDA_h s)[i := hi],
                    RDA_w := (RDA_w s)[i := wi]\<rparr>"
  have step: "enumerate_from vis i (v # vs) (RDA_update_body y) s
                = enumerate_from vis (Suc i) vs (RDA_update_body y) s1"
  proof (cases "visited vis v")
    case True
    with Cons.prems show ?thesis
      by (simp add: RDA_update_body_def s1_def gi_def hi_def wi_def Let_def)
  next
    case False
    then have "v = 0" by (rule not_visited_zero)
    with False have "s1 = s" by (simp add: s1_def gi_def hi_def wi_def)
    with False show ?thesis by simp
  qed
  have s1: "RDA_g s1 = (RDA_g s)[i := gi]" "RDA_h s1 = (RDA_h s)[i := hi]"
    "RDA_w s1 = (RDA_w s)[i := wi]"
    "RDA_kEta s1 = RDA_kEta s" "RDA_kLambda s1 = RDA_kLambda s" "RDA_timestep s1 = RDA_timestep s"
    by (simp_all add: s1_def)
  have "Suc i + length vs \<le> length (RDA_g s1)" "length (RDA_h s1) = length (RDA_g s1)"
    "length (RDA_w s1) = length (RDA_g s1)"
    using Cons.prems by (simp_all add: s1)
  from Cons.IH [OF this] obtain g' h' w' where
    run: "enumerate_from vis (Suc i) vs (RDA_update_body y) s1 = Inr (s1\<lparr>RDA_w := w', RDA_h := h', RDA_g := g'\<rparr>)"
    and len: "length g' = length (RDA_g s1)" "length h' = length (RDA_g s1)" "length w' = length (RDA_g s1)"
    and pt: "\<forall>j < length (RDA_g s1).
                 g' ! j = (if Suc i \<le> j \<and> j < Suc i + length vs
                           then RDA_g s1 ! j + real_of_int (- y) * vs ! (j - Suc i) else RDA_g s1 ! j)
               \<and> h' ! j = (if Suc i \<le> j \<and> j < Suc i + length vs
                           then RDA_h s1 ! j + real_of_int (- y) * vs ! (j - Suc i) * (real_of_int (- y) * vs ! (j - Suc i))
                           else RDA_h s1 ! j)
               \<and> w' ! j = (if Suc i \<le> j \<and> j < Suc i + length vs \<and> visited vis (vs ! (j - Suc i))
                           then RDA_weight (RDA_kEta s1) (RDA_kLambda s1) (RDA_timestep s1)
                                  (RDA_g s1 ! j + real_of_int (- y) * vs ! (j - Suc i))
                                  (RDA_h s1 ! j + real_of_int (- y) * vs ! (j - Suc i) * (real_of_int (- y) * vs ! (j - Suc i)))
                           else RDA_w s1 ! j)"
    by blast
  have "s1\<lparr>RDA_w := w', RDA_h := h', RDA_g := g'\<rparr> = s\<lparr>RDA_w := w', RDA_h := h', RDA_g := g'\<rparr>"
    by (simp add: s1_def)
  moreover have "enumerate_from vis i (v # vs) (RDA_update_body y) s = Inr (s1\<lparr>RDA_w := w', RDA_h := h', RDA_g := g'\<rparr>)"
    unfolding step by (rule run)
  ultimately have "enumerate_from vis i (v # vs) (RDA_update_body y) s = Inr (s\<lparr>RDA_w := w', RDA_h := h', RDA_g := g'\<rparr>)"
    by (simp only:)
  moreover have "length g' = length (RDA_g s)" "length h' = length (RDA_g s)" "length w' = length (RDA_g s)"
    using len by (simp_all add: s1)
  moreover have "g' ! j = (if i \<le> j \<and> j < i + length (v # vs)
                           then RDA_g s ! j + real_of_int (- y) * (v # vs) ! (j - i) else RDA_g s ! j)
               \<and> h' ! j = (if i \<le> j \<and> j < i + length (v # vs)
                           then RDA_h s ! j + real_of_int (- y) * (v # vs) ! (j - i) * (real_of_int (- y) * (v # vs) ! (j - i))
                           else RDA_h s ! j)
               \<and> w' ! j = (if i \<le> j \<and> j < i + length (v # vs) \<and> visited vis ((v # vs) ! (j - i))
                           then RDA_weight (RDA_kEta s) (RDA_kLambda s) (RDA_timestep s)
                                  (RDA_g s ! j + real_of_int (- y) * (v # vs) ! (j - i))
                                  (RDA_h s ! j + real_of_int (- y) * (v # vs) ! (j - i) * (real_of_int (- y) * (v # vs) ! (j - i)))
                           else RDA_w s ! j)"
    if j: "j < length (RDA_g s)" for j
  proof -
    from j have j1: "j < length (RDA_g s1)" by (simp add: s1)
    consider "j < i" | "j = i" | "i < j"
      by linarith
    then show ?thesis
    proof cases
      case 1
      with pt [rule_format, OF j1] show ?thesis by (simp add: s1)
    next
      case 2
      with pt [rule_format, OF j1] j Cons.prems show ?thesis by (simp add: s1 gi_def hi_def wi_def)
    next
      case 3
      with pt [rule_format, OF j1] show ?thesis by (simp add: s1 nth_Cons_shift)
    qed
  qed
  ultimately show ?case by blast
qed

lemma RDA_update_effective:
  assumes len: "length x = length (RDA_w s)" "length (RDA_h s) = length (RDA_w s)"
      "length (RDA_g s) = length (RDA_w s)"
    and loss: "real_of_int y * sum_list (map2 (*) (RDA_w s) x) < 1"
  shows "RDA_update vis s x y =
           Inr (True, s\<lparr>RDA_timestep := (RDA_timestep s + 1) mod 2 ^ 64,
                  RDA_w := map (\<lambda>(gi, hi, wi, v).
                             if visited vis v
                             then RDA_weight (RDA_kEta s) (RDA_kLambda s) ((RDA_timestep s + 1) mod 2 ^ 64)
                                    (gi + real_of_int (- y) * v)
                                    (hi + real_of_int (- y) * v * (real_of_int (- y) * v))
                             else wi)
                           (zip (RDA_g s) (zip (RDA_h s) (zip (RDA_w s) x))),
                  RDA_h := map2 (\<lambda>hi v. hi + real_of_int (- y) * v * (real_of_int (- y) * v)) (RDA_h s) x,
                  RDA_g := map2 (\<lambda>gi v. gi + real_of_int (- y) * v) (RDA_g s) x\<rparr>)"
proof -
  define t' where "t' = (RDA_timestep s + 1) mod 2 ^ 64"
  define s0 where "s0 = s\<lparr>RDA_timestep := t'\<rparr>"
  have s0: "RDA_g s0 = RDA_g s" "RDA_h s0 = RDA_h s" "RDA_w s0 = RDA_w s" "RDA_kEta s0 = RDA_kEta s"
    "RDA_kLambda s0 = RDA_kLambda s" "RDA_timestep s0 = t'"
    by (simp_all add: s0_def)
  have "0 + length x \<le> length (RDA_g s0)" "length (RDA_h s0) = length (RDA_g s0)"
    "length (RDA_w s0) = length (RDA_g s0)"
    using len by (simp_all add: s0)
  from RDA_loop [OF this, of vis y] obtain g' h' w' where
    run: "enumerate_from vis 0 x (RDA_update_body y) s0 = Inr (s0\<lparr>RDA_w := w', RDA_h := h', RDA_g := g'\<rparr>)"
    and l: "length g' = length (RDA_g s0)" "length h' = length (RDA_g s0)" "length w' = length (RDA_g s0)"
    and pt: "\<forall>j < length (RDA_g s0).
                 g' ! j = (if 0 \<le> j \<and> j < 0 + length x
                           then RDA_g s0 ! j + real_of_int (- y) * x ! (j - 0) else RDA_g s0 ! j)
               \<and> h' ! j = (if 0 \<le> j \<and> j < 0 + length x
                           then RDA_h s0 ! j + real_of_int (- y) * x ! (j - 0) * (real_of_int (- y) * x ! (j - 0))
                           else RDA_h s0 ! j)
               \<and> w' ! j = (if 0 \<le> j \<and> j < 0 + length x \<and> visited vis (x ! (j - 0))
                           then RDA_weight (RDA_kEta s0) (RDA_kLambda s0) (RDA_timestep s0)
                                  (RDA_g s0 ! j + real_of_int (- y) * x ! (j - 0))
                                  (RDA_h s0 ! j + real_of_int (- y) * x ! (j - 0) * (real_of_int (- y) * x ! (j - 0)))
                           else RDA_w s0 ! j)"
    by blast
  have g': "g' = map2 (\<lambda>gi v. gi + real_of_int (- y) * v) (RDA_g s) x"
    using pt l len by (intro nth_equalityI) (simp_all add: s0)
  have h': "h' = map2 (\<lambda>hi v. hi + real_of_int (- y) * v * (real_of_int (- y) * v)) (RDA_h s) x"
    using pt l len by (intro nth_equalityI) (simp_all add: s0)
  have w': "w' = map (\<lambda>(gi, hi, wi, v).
                             if visited vis v
                             then RDA_weight (RDA_kEta s) (RDA_kLambda s) t'
                                    (gi + real_of_int (- y) * v)
                                    (hi + real_of_int (- y) * v * (real_of_int (- y) * v))
                             else wi)
                           (zip (RDA_g s) (zip (RDA_h s) (zip (RDA_w s) x)))"
    using pt l len by (intro nth_equalityI) (simp_all add: s0)
  have "RDA_suffer_loss s x y = Inr (max 0 (1 - real_of_int y * sum_list (map2 (*) (RDA_w s) x)))"
    using len by (simp add: RDA_suffer_loss_def dot_def)
  moreover have "\<not> max 0 (1 - real_of_int y * sum_list (map2 (*) (RDA_w s) x)) \<le> 0"
    using loss by simp
  ultimately have "RDA_update vis s x y = Inr (True, s0\<lparr>RDA_w := w', RDA_h := h', RDA_g := g'\<rparr>)"
    using run by (simp add: RDA_update_def s0_def t'_def)
  then show ?thesis
    unfolding s0_def g' h' w' t'_def .
qed

lemma RDA_weight_sign:
  assumes "0 < eta" and "0 < lam" and "0 < t" and "g \<noteq> 0 \<longrightarrow> 0 < h"
  shows "RDA_weight eta lam t g h * g \<le> 0"
    and "\<bar>g\<bar> / real t \<le> lam \<Longrightarrow> RDA_weight eta lam t g h = 0"
    and "lam < \<bar>g\<bar> / real t \<Longrightarrow> RDA_weight eta lam t g h * g < 0"
proof -
  show z: "RDA_weight eta lam t g h = 0" if "\<bar>g\<bar> / real t \<le> lam"
    using that by (simp add: RDA_weight_def)
  show neg: "RDA_weight eta lam t g h * g < 0" if u: "lam < \<bar>g\<bar> / real t"
  proof -
    from u assms(2,3) have "0 < \<bar>g\<bar> / real t" by linarith
    with assms(3) have g: "g \<noteq> 0" by auto
    with assms(4) have "0 < sqrt h" by simp
    with assms(1) have e: "0 < eta / sqrt h" by simp
    from assms(3) have t: "0 < real t" by simp
    from u have d: "0 < \<bar>g\<bar> / real t - lam" by simp
    define P where "P = eta / sqrt h * real t * (\<bar>g\<bar> / real t - lam)"
    have pos: "0 < P"
      unfolding P_def using e t d by (intro mult_pos_pos)
    have "RDA_weight eta lam t g h = - (if g \<ge> 0 then 1 else - 1) * P"
      using u by (simp add: RDA_weight_def Let_def P_def)
    then have "RDA_weight eta lam t g h * g = - (((if g \<ge> 0 then 1 else - 1) * g) * P)"
      by simp
    also have "(if g \<ge> 0 then 1 else - 1) * g = \<bar>g\<bar>" by simp
    finally have "RDA_weight eta lam t g h * g = - (\<bar>g\<bar> * P)" .
    moreover have "0 < \<bar>g\<bar> * P"
      using g pos by (intro mult_pos_pos) simp_all
    ultimately show ?thesis by simp
  qed
  show "RDA_weight eta lam t g h * g \<le> 0"
  proof (cases "\<bar>g\<bar> / real t \<le> lam")
    case True
    with z show ?thesis by simp
  next
    case False
    with neg show ?thesis by simp
  qed
qed


lemma RDA_inv_ctor:
  assumes "ADAGRAD_RDA_ctor d eta lambda = Inr s"
  shows "RDA_inv vis s" and "RDA_timestep s = 0" and "RDA_kDim s = d" and "RDA_kLambda s = lambda"
    and "RDA_kEta s = eta"
  using assms by (auto simp: ADAGRAD_RDA_ctor_def RDA_inv_def split: if_splits)

lemma RDA_update_cases:
  assumes "RDA_update vis s x y = Inr (b, s')"
  shows "length x = length (RDA_w s)"
    and "\<not> b \<Longrightarrow> s' = s"
    and "b \<Longrightarrow> real_of_int y * sum_list (map2 (*) (RDA_w s) x) < 1"
proof -
  show l: "length x = length (RDA_w s)"
    using assms by (auto simp: RDA_update_def RDA_suffer_loss_def dot_def split: if_splits)
  then have loss: "RDA_suffer_loss s x y = Inr (max 0 (1 - real_of_int y * sum_list (map2 (*) (RDA_w s) x)))"
    by (simp add: RDA_suffer_loss_def dot_def)
  show "s' = s" if "\<not> b"
    using assms that loss by (auto simp: RDA_update_def split: if_splits sum.splits)
  show "real_of_int y * sum_list (map2 (*) (RDA_w s) x) < 1" if "b"
    using assms that loss by (auto simp: RDA_update_def split: if_splits sum.splits)
qed

lemma RDA_update_inv:
  assumes inv: "RDA_inv vis s" and upd: "RDA_update vis s x y = Inr (b, s')"
    and t: "Suc (RDA_timestep s) < 2 ^ 64"
  shows "RDA_inv vis s'" and "RDA_kDim s' = RDA_kDim s" and "RDA_kLambda s' = RDA_kLambda s"
    and "RDA_kEta s' = RDA_kEta s"
    and "RDA_timestep s' = (if b then Suc (RDA_timestep s) else RDA_timestep s)"
    and "b \<Longrightarrow> \<forall>i < RDA_kDim s. RDA_w s' ! i =
            (if visited vis (x ! i)
             then RDA_weight (RDA_kEta s') (RDA_kLambda s') (RDA_timestep s') (RDA_g s' ! i) (RDA_h s' ! i)
             else RDA_w s ! i)"
proof -
  note c = RDA_update_cases [OF upd]
  from inv have len: "length x = length (RDA_w s)" "length (RDA_h s) = length (RDA_w s)"
      "length (RDA_g s) = length (RDA_w s)" "length (RDA_w s) = RDA_kDim s"
    using c(1) by (simp_all add: RDA_inv_def)
  from inv have eta: "0 < RDA_kEta s" and lam: "0 < RDA_kLambda s"
    by (simp_all add: RDA_inv_def)
  from t have mod: "(RDA_timestep s + 1) mod 2 ^ 64 = Suc (RDA_timestep s)"
    by simp
  have "RDA_inv vis s' \<and> RDA_kDim s' = RDA_kDim s \<and> RDA_kLambda s' = RDA_kLambda s
      \<and> RDA_kEta s' = RDA_kEta s
      \<and> RDA_timestep s' = (if b then Suc (RDA_timestep s) else RDA_timestep s)
      \<and> (b \<longrightarrow> (\<forall>i < RDA_kDim s. RDA_w s' ! i =
            (if visited vis (x ! i)
             then RDA_weight (RDA_kEta s') (RDA_kLambda s') (RDA_timestep s') (RDA_g s' ! i) (RDA_h s' ! i)
             else RDA_w s ! i)))"
  proof (cases b)
    case False
    with c(2) inv show ?thesis by simp
  next
    case True
    from RDA_update_effective [OF len(1-3) c(3) [OF True], of vis, unfolded mod] upd
    have s': "s' = s\<lparr>RDA_timestep := Suc (RDA_timestep s),
                  RDA_w := map (\<lambda>(gi, hi, wi, v).
                             if visited vis v
                             then RDA_weight (RDA_kEta s) (RDA_kLambda s) (Suc (RDA_timestep s))
                                    (gi + real_of_int (- y) * v)
                                    (hi + real_of_int (- y) * v * (real_of_int (- y) * v))
                             else wi)
                           (zip (RDA_g s) (zip (RDA_h s) (zip (RDA_w s) x))),
                  RDA_h := map2 (\<lambda>hi v. hi + real_of_int (- y) * v * (real_of_int (- y) * v)) (RDA_h s) x,
                  RDA_g := map2 (\<lambda>gi v. gi + real_of_int (- y) * v) (RDA_g s) x\<rparr>"
      by simp
    have k: "RDA_kEta s' = RDA_kEta s" "RDA_kLambda s' = RDA_kLambda s" "RDA_kDim s' = RDA_kDim s"
      "RDA_timestep s' = Suc (RDA_timestep s)"
      by (simp_all add: s')
    have pt: "0 \<le> RDA_h s' ! i \<and> (RDA_g s' ! i \<noteq> 0 \<longrightarrow> 0 < RDA_h s' ! i)
        \<and> RDA_w s' ! i = (if visited vis (x ! i)
             then RDA_weight (RDA_kEta s) (RDA_kLambda s) (Suc (RDA_timestep s)) (RDA_g s' ! i) (RDA_h s' ! i)
             else RDA_w s ! i)
        \<and> RDA_w s' ! i * RDA_g s' ! i \<le> 0"
      if i: "i < RDA_kDim s" for i
    proof -
      define q where "q = real_of_int (- y) * x ! i"
      from inv i have h: "0 \<le> RDA_h s ! i" and gh: "RDA_g s ! i \<noteq> 0 \<longrightarrow> 0 < RDA_h s ! i"
        and wg: "RDA_w s ! i * RDA_g s ! i \<le> 0"
        by (simp_all add: RDA_inv_def)
      from i len have g': "RDA_g s' ! i = RDA_g s ! i + q" and h': "RDA_h s' ! i = RDA_h s ! i + q * q"
        and w': "RDA_w s' ! i = (if visited vis (x ! i)
                   then RDA_weight (RDA_kEta s) (RDA_kLambda s) (Suc (RDA_timestep s))
                          (RDA_g s ! i + q) (RDA_h s ! i + q * q)
                   else RDA_w s ! i)"
        by (simp_all add: s' q_def)
      have "0 \<le> q * q" by simp
      with h have 1: "0 \<le> RDA_h s ! i + q * q" by simp
      have 2: "0 < RDA_h s ! i + q * q" if "RDA_g s ! i + q \<noteq> 0"
      proof (cases "q = 0")
        case True
        with that gh show ?thesis by simp
      next
        case False
        then have "0 < q * q" by (auto simp: zero_less_mult_iff)
        with h show ?thesis by simp
      qed
      have 3: "RDA_w s' ! i * RDA_g s' ! i \<le> 0"
      proof (cases "visited vis (x ! i)")
        case True
        have "RDA_weight (RDA_kEta s) (RDA_kLambda s) (Suc (RDA_timestep s))
                (RDA_g s ! i + q) (RDA_h s ! i + q * q) * (RDA_g s ! i + q) \<le> 0"
          by (rule RDA_weight_sign(1) [OF eta lam]) (use 2 in simp_all)
        with True show ?thesis by (simp add: w' g')
      next
        case False
        then have "x ! i = 0" by (rule not_visited_zero)
        then have "q = 0" by (simp add: q_def)
        with False wg show ?thesis by (simp add: w' g')
      qed
      from 1 2 3 show ?thesis
        by (simp add: g' h' w')
    qed
    have "RDA_inv vis s'"
      unfolding RDA_inv_def
    proof (intro conjI allI impI)
      show "0 < RDA_kEta s'" "0 < RDA_kLambda s'" using eta lam by (simp_all add: k)
      show "length (RDA_w s') = RDA_kDim s'" "length (RDA_h s') = RDA_kDim s'"
        "length (RDA_g s') = RDA_kDim s'"
        using len by (simp_all add: s')
    next
      fix i assume "i < RDA_kDim s'"
      then have i: "i < RDA_kDim s" by (simp add: k)
      from pt [OF i] have p1: "0 \<le> RDA_h s' ! i"
        and p2: "RDA_g s' ! i \<noteq> 0 \<longrightarrow> 0 < RDA_h s' ! i"
        and p3: "RDA_w s' ! i = (if visited vis (x ! i)
             then RDA_weight (RDA_kEta s) (RDA_kLambda s) (Suc (RDA_timestep s)) (RDA_g s' ! i) (RDA_h s' ! i)
             else RDA_w s ! i)"
        and p4: "RDA_w s' ! i * RDA_g s' ! i \<le> 0"
        by blast+
      show "0 \<le> RDA_h s' ! i" by (rule p1)
      show "0 < RDA_h s' ! i" if "RDA_g s' ! i \<noteq> 0" using p2 that by blast
      show "RDA_g s' ! i = 0" if "RDA_timestep s' = 0" using that by (simp add: k)
      show "RDA_w s' ! i = 0" if "RDA_timestep s' = 0" using that by (simp add: k)
      show "RDA_w s' ! i * RDA_g s' ! i \<le> 0" by (rule p4)
      show "RDA_w s' ! i = RDA_weight (RDA_kEta s') (RDA_kLambda s') (RDA_timestep s') (RDA_g s' ! i) (RDA_h s' ! i)"
        if "vis = EveryEntry \<and> 0 < RDA_timestep s'"
        using p3 that by (simp add: k)
    qed
    moreover have "\<forall>i < RDA_kDim s. RDA_w s' ! i =
            (if visited vis (x ! i)
             then RDA_weight (RDA_kEta s') (RDA_kLambda s') (RDA_timestep s') (RDA_g s' ! i) (RDA_h s' ! i)
             else RDA_w s ! i)"
      using pt by (simp add: k)
    ultimately show ?thesis using True k by simp
  qed
  then show "RDA_inv vis s'" and "RDA_kDim s' = RDA_kDim s" and "RDA_kLambda s' = RDA_kLambda s"
    and "RDA_kEta s' = RDA_kEta s"
    and "RDA_timestep s' = (if b then Suc (RDA_timestep s) else RDA_timestep s)"
    and "b \<Longrightarrow> \<forall>i < RDA_kDim s. RDA_w s' ! i =
            (if visited vis (x ! i)
             then RDA_weight (RDA_kEta s') (RDA_kLambda s') (RDA_timestep s') (RDA_g s' ! i) (RDA_h s' ! i)
             else RDA_w s ! i)"
    by simp_all
qed

lemma RDA_updates_inv:
  assumes "RDA_inv vis s" and "RDA_timestep s + length cs < 2 ^ 64" and "RDA_updates vis s cs = Inr s'"
  shows "RDA_inv vis s' \<and> RDA_kDim s' = RDA_kDim s \<and> RDA_kLambda s' = RDA_kLambda s
      \<and> RDA_kEta s' = RDA_kEta s"
  using assms
proof (induction cs arbitrary: s)
  case Nil
  then show ?case by simp
next
  case (Cons c cs)
  from Cons.prems(3) obtain b s1 where u: "RDA_update vis s (fst c) (snd c) = Inr (b, s1)"
    and r: "RDA_updates vis s1 cs = Inr s'"
    by (auto split: sum.splits)
  from Cons.prems(2) have t: "Suc (RDA_timestep s) < 2 ^ 64" by simp
  note st = RDA_update_inv [OF Cons.prems(1) u t]
  from st(5) Cons.prems(2) have "RDA_timestep s1 + length cs < 2 ^ 64"
    by (simp split: if_splits)
  from Cons.IH [OF st(1) this r] st(2-4) show ?case by simp
qed

lemma RDA_stays_zero:
  assumes "RDA_inv vis s" and "RDA_timestep s + length cs < 2 ^ 64" and "RDA_updates vis s cs = Inr s'"
    and "i < RDA_kDim s" and "RDA_w s ! i = 0" and "RDA_u_within vis i s cs"
  shows "RDA_w s' ! i = 0"
  using assms
proof (induction cs arbitrary: s)
  case Nil
  then show ?case by simp
next
  case (Cons c cs)
  from Cons.prems(3) obtain b s1 where u: "RDA_update vis s (fst c) (snd c) = Inr (b, s1)"
    and r: "RDA_updates vis s1 cs = Inr s'"
    by (auto split: sum.splits)
  from Cons.prems(2) have t: "Suc (RDA_timestep s) < 2 ^ 64" by simp
  note st = RDA_update_inv [OF Cons.prems(1) u t]
  from st(5) Cons.prems(2) have t1: "RDA_timestep s1 + length cs < 2 ^ 64"
    by (simp split: if_splits)
  from Cons.prems(6) u have within: "RDA_u_within vis i s1 cs"
    and le: "b \<Longrightarrow> \<bar>RDA_g s1 ! i\<bar> / real (RDA_timestep s1) \<le> RDA_kLambda s1"
    by simp_all
  have "RDA_w s1 ! i = 0"
  proof (cases b)
    case False
    with RDA_update_cases(2) [OF u] Cons.prems(5) show ?thesis by simp
  next
    case True
    from st(6) [OF True] Cons.prems(4)
    have "RDA_w s1 ! i = (if visited vis (fst c ! i)
             then RDA_weight (RDA_kEta s1) (RDA_kLambda s1) (RDA_timestep s1) (RDA_g s1 ! i) (RDA_h s1 ! i)
             else RDA_w s ! i)"
      by simp
    with le [OF True] Cons.prems(5) show ?thesis
      by (simp add: RDA_weight_def)
  qed
  with Cons.IH [OF st(1) t1 r _ _ within] Cons.prems(4) st(2) show ?case by simp
qed

section \<open>AdaGrad-RDA: soft thresholding\<close>

text \<open>
  C7. For an AdaGrad-RDA state that satisfies the invariant of reachable states, a feature
  vector whose hinge loss is positive, and a time step that does not wrap: \<^verbatim>\<open>update\<close> returns
  true, increments the time step, adds \<open>-y * x[i]\<close> to \<open>g[i]\<close> and its square to \<open>h[i]\<close>,
  and sets the weight of every coordinate visited by soft thresholding of the new values:
  \<open>w[i] = 0\<close> when \<open>u = |g[i]| / timestep \<le> lambda\<close>, and
  \<open>w[i] = -sign(g[i]) * (eta / sqrt(h[i])) * timestep * (u - lambda)\<close> otherwise, where
  \<open>sign\<close> is \<open>1\<close> for \<open>g[i] \<ge> 0\<close> and \<open>-1\<close> below; the weight of a coordinate that is
  not visited stays. Every successful update keeps the invariant. Consequently, along any
  sequence of updates, a coordinate whose weight is 0 at the start and whose \<open>u\<close> is at most
  \<open>lambda\<close> after each effective update of the sequence has weight exactly 0 at the end,
  however long the sequence. All of this holds under both readings of the iteration.
\<close>

theorem RDA_update_soft_threshold:
  "(RDA_inv vis s \<and> RDA_suffer_loss s x y = Inr loss \<and> 0 < loss \<and> Suc (RDA_timestep s) < 2 ^ 64 \<longrightarrow>
      RDA_update vis s x y =
        Inr (True, s\<lparr>RDA_timestep := Suc (RDA_timestep s),
               RDA_w := map (\<lambda>(gi, hi, wi, v).
                          if visited vis v
                          then let g' = gi + real_of_int (- y) * v;
                                   h' = hi + real_of_int (- y) * v * (real_of_int (- y) * v);
                                   u = \<bar>g'\<bar> / real (Suc (RDA_timestep s))
                               in if u \<le> RDA_kLambda s then 0
                                  else - (if g' \<ge> 0 then 1 else - 1) * (RDA_kEta s / sqrt h')
                                         * real (Suc (RDA_timestep s)) * (u - RDA_kLambda s)
                          else wi)
                        (zip (RDA_g s) (zip (RDA_h s) (zip (RDA_w s) x))),
               RDA_h := map2 (\<lambda>hi v. hi + real_of_int (- y) * v * (real_of_int (- y) * v)) (RDA_h s) x,
               RDA_g := map2 (\<lambda>gi v. gi + real_of_int (- y) * v) (RDA_g s) x\<rparr>))
   \<and> (RDA_inv vis s \<and> Suc (RDA_timestep s) < 2 ^ 64 \<and> RDA_update vis s x y = Inr (b, s1) \<longrightarrow> RDA_inv vis s1)
   \<and> (RDA_inv vis s \<and> i < RDA_kDim s \<and> RDA_w s ! i = 0 \<and> RDA_timestep s + length cs < 2 ^ 64
        \<and> RDA_updates vis s cs = Inr s' \<and> RDA_u_within vis i s cs \<longrightarrow> RDA_w s' ! i = 0)"
proof (intro conjI impI)
  assume h: "RDA_inv vis s \<and> RDA_suffer_loss s x y = Inr loss \<and> 0 < loss \<and> Suc (RDA_timestep s) < 2 ^ 64"
  then have l: "length x = length (RDA_w s)"
    by (auto simp: RDA_suffer_loss_def dot_def split: if_splits)
  with h have len: "length (RDA_h s) = length (RDA_w s)" "length (RDA_g s) = length (RDA_w s)"
    by (simp_all add: RDA_inv_def)
  from h l have "loss = max 0 (1 - real_of_int y * sum_list (map2 (*) (RDA_w s) x))"
    by (simp add: RDA_suffer_loss_def dot_def)
  moreover from h have "0 < loss" by simp
  ultimately have pos: "real_of_int y * sum_list (map2 (*) (RDA_w s) x) < 1"
    by simp
  from h have mod: "(RDA_timestep s + 1) mod 2 ^ 64 = Suc (RDA_timestep s)"
    by simp
  show "RDA_update vis s x y =
        Inr (True, s\<lparr>RDA_timestep := Suc (RDA_timestep s),
               RDA_w := map (\<lambda>(gi, hi, wi, v).
                          if visited vis v
                          then let g' = gi + real_of_int (- y) * v;
                                   h' = hi + real_of_int (- y) * v * (real_of_int (- y) * v);
                                   u = \<bar>g'\<bar> / real (Suc (RDA_timestep s))
                               in if u \<le> RDA_kLambda s then 0
                                  else - (if g' \<ge> 0 then 1 else - 1) * (RDA_kEta s / sqrt h')
                                         * real (Suc (RDA_timestep s)) * (u - RDA_kLambda s)
                          else wi)
                        (zip (RDA_g s) (zip (RDA_h s) (zip (RDA_w s) x))),
               RDA_h := map2 (\<lambda>hi v. hi + real_of_int (- y) * v * (real_of_int (- y) * v)) (RDA_h s) x,
               RDA_g := map2 (\<lambda>gi v. gi + real_of_int (- y) * v) (RDA_g s) x\<rparr>)"
    unfolding RDA_update_effective [OF l len pos] mod RDA_weight_def Let_def
    by (rule refl)
next
  assume "RDA_inv vis s \<and> Suc (RDA_timestep s) < 2 ^ 64 \<and> RDA_update vis s x y = Inr (b, s1)"
  then show "RDA_inv vis s1"
    using RDA_update_inv(1) by blast
next
  assume "RDA_inv vis s \<and> i < RDA_kDim s \<and> RDA_w s ! i = 0 \<and> RDA_timestep s + length cs < 2 ^ 64
        \<and> RDA_updates vis s cs = Inr s' \<and> RDA_u_within vis i s cs"
  then show "RDA_w s' ! i = 0"
    using RDA_stays_zero by blast
qed

text \<open>One update of the fresh model \<^verbatim>\<open>ADAGRAD_RDA(2, 1, 1)\<close> with \<open>x = [2, 1/2]\<close> and
  \<open>y = 1\<close>: \<open>g = [-2, -1/2]\<close>, \<open>h = [4, 1/4]\<close>, \<open>u = [2, 1/2]\<close>, so the first weight is
  \<open>1 * (1 / 2) * 1 * (2 - 1) = 1/2\<close> and the second is 0.\<close>

lemma RDA_example_ctor:
  "ADAGRAD_RDA_ctor 2 1 1
     = Inr \<lparr>RDA_kDim = 2, RDA_kEta = 1, RDA_kLambda = 1, RDA_timestep = 0, RDA_w = [0, 0], RDA_h = [0, 0], RDA_g = [0, 0]\<rparr>"
  by (simp add: ADAGRAD_RDA_ctor_def numeral_2_eq_2)

lemma RDA_example_loss:
  "RDA_suffer_loss \<lparr>RDA_kDim = 2, RDA_kEta = 1, RDA_kLambda = 1, RDA_timestep = 0, RDA_w = [0, 0], RDA_h = [0, 0], RDA_g = [0, 0]\<rparr>
     [2, 1 / 2] 1 = Inr 1"
  by (simp add: RDA_suffer_loss_def dot_def)

lemma RDA_example_update:
  "RDA_update vis \<lparr>RDA_kDim = 2, RDA_kEta = 1, RDA_kLambda = 1, RDA_timestep = 0, RDA_w = [0, 0], RDA_h = [0, 0], RDA_g = [0, 0]\<rparr>
     [2, 1 / 2] 1
     = Inr (True, \<lparr>RDA_kDim = 2, RDA_kEta = 1, RDA_kLambda = 1, RDA_timestep = 1, RDA_w = [1 / 2, 0], RDA_h = [4, 1 / 4],
                    RDA_g = [- 2, - (1 / 2)]\<rparr>)"
  by (simp add: RDA_update_def RDA_example_loss RDA_update_body_def RDA_weight_def Let_def
      visited_nonzero)

theorem RDA_update_soft_threshold_witness:
  "RDA_inv NonZeroEntries \<lparr>RDA_kDim = 2, RDA_kEta = 1, RDA_kLambda = 1, RDA_timestep = 0, RDA_w = [0, 0], RDA_h = [0, 0], RDA_g = [0, 0]\<rparr>
   \<and> RDA_suffer_loss \<lparr>RDA_kDim = 2, RDA_kEta = 1, RDA_kLambda = 1, RDA_timestep = 0, RDA_w = [0, 0], RDA_h = [0, 0], RDA_g = [0, 0]\<rparr>
        [2, 1 / 2] 1 = Inr 1
   \<and> RDA_update NonZeroEntries \<lparr>RDA_kDim = 2, RDA_kEta = 1, RDA_kLambda = 1, RDA_timestep = 0, RDA_w = [0, 0], RDA_h = [0, 0], RDA_g = [0, 0]\<rparr>
        [2, 1 / 2] 1
       = Inr (True, \<lparr>RDA_kDim = 2, RDA_kEta = 1, RDA_kLambda = 1, RDA_timestep = 1, RDA_w = [1 / 2, 0], RDA_h = [4, 1 / 4],
                      RDA_g = [- 2, - (1 / 2)]\<rparr>)
   \<and> RDA_inv NonZeroEntries \<lparr>RDA_kDim = 2, RDA_kEta = 1, RDA_kLambda = 1, RDA_timestep = 1, RDA_w = [1 / 2, 0], RDA_h = [4, 1 / 4],
                      RDA_g = [- 2, - (1 / 2)]\<rparr>
   \<and> RDA_updates NonZeroEntries \<lparr>RDA_kDim = 2, RDA_kEta = 1, RDA_kLambda = 1, RDA_timestep = 0, RDA_w = [0, 0], RDA_h = [0, 0], RDA_g = [0, 0]\<rparr>
        [([2, 1 / 2], 1)]
       = Inr \<lparr>RDA_kDim = 2, RDA_kEta = 1, RDA_kLambda = 1, RDA_timestep = 1, RDA_w = [1 / 2, 0], RDA_h = [4, 1 / 4],
                      RDA_g = [- 2, - (1 / 2)]\<rparr>
   \<and> RDA_u_within NonZeroEntries 1 \<lparr>RDA_kDim = 2, RDA_kEta = 1, RDA_kLambda = 1, RDA_timestep = 0, RDA_w = [0, 0], RDA_h = [0, 0], RDA_g = [0, 0]\<rparr>
        [([2, 1 / 2], 1)]
   \<and> RDA_w \<lparr>RDA_kDim = 2, RDA_kEta = 1, RDA_kLambda = 1, RDA_timestep = 1, RDA_w = [1 / 2, 0], RDA_h = [4, 1 / 4],
                      RDA_g = [- 2, - (1 / 2)]\<rparr> ! 1 = 0"
proof -
  let ?s0 = "\<lparr>RDA_kDim = 2, RDA_kEta = 1, RDA_kLambda = 1, RDA_timestep = 0, RDA_w = [0, 0], RDA_h = [0, 0], RDA_g = [0, 0]\<rparr>"
  let ?s1 = "\<lparr>RDA_kDim = 2, RDA_kEta = 1, RDA_kLambda = 1, RDA_timestep = 1, RDA_w = [1 / 2, 0], RDA_h = [4, 1 / 4],
                      RDA_g = [- 2, - (1 / 2)]\<rparr>"
  have inv: "RDA_inv NonZeroEntries ?s0"
    using RDA_inv_ctor(1) [OF RDA_example_ctor] .
  have ups: "RDA_updates NonZeroEntries ?s0 [([2, 1 / 2], 1)] = Inr ?s1"
    by (simp add: RDA_example_update)
  have within: "RDA_u_within NonZeroEntries 1 ?s0 [([2, 1 / 2], 1)]"
    by (simp add: RDA_example_update)
  have t: "Suc (RDA_timestep ?s0) < 2 ^ 64" "RDA_timestep ?s0 + length [([2, 1 / 2] :: real list, 1 :: int)] < 2 ^ 64"
    by simp_all
  note inst = RDA_update_soft_threshold
    [where vis = NonZeroEntries and s = ?s0 and x = "[2, 1 / 2]" and y = 1 and loss = 1 and b = True
       and ?s1.0 = ?s1 and i = 1 and cs = "[([2, 1 / 2], 1)]" and s' = ?s1]
  from inst inv RDA_example_loss t(1) have upd: "RDA_update NonZeroEntries ?s0 [2, 1 / 2] 1 = Inr (True, ?s1)"
    by (simp add: Let_def)
  from inst inv t(1) upd have inv1: "RDA_inv NonZeroEntries ?s1"
    by blast
  from inst inv t(2) ups within have z: "RDA_w ?s1 ! 1 = 0"
    by simp
  from inv RDA_example_loss upd inv1 ups within z show ?thesis
    by blast
qed

section \<open>AdaGrad-RDA: the weight opposes the accumulated gradient\<close>

text \<open>An effective update adds \<open>-y * x[i]\<close> to every \<open>g[i]\<close>, under both readings of the
  iteration.\<close>

lemma RDA_update_g:
  assumes inv: "RDA_inv vis s" and upd: "RDA_update vis s x y = Inr (True, s')"
    and i: "i < RDA_kDim s"
  shows "RDA_g s' ! i = RDA_g s ! i + real_of_int (- y) * x ! i"
proof -
  note c = RDA_update_cases [OF upd]
  from inv have len: "length x = length (RDA_w s)" "length (RDA_h s) = length (RDA_w s)"
      "length (RDA_g s) = length (RDA_w s)" "length (RDA_w s) = RDA_kDim s"
    using c(1) by (simp_all add: RDA_inv_def)
  from RDA_update_effective [OF len(1-3) c(3), of vis] upd
  have "RDA_g s' = map2 (\<lambda>gi v. gi + real_of_int (- y) * v) (RDA_g s) x"
    by simp
  with i len show ?thesis by simp
qed

text \<open>Where \<open>u = |g[i]| / timestep\<close> exceeds \<open>lambda\<close> the weight is not zero and opposes
  \<open>g[i]\<close>: a coordinate that an update visits gets the thresholded weight, and one that it
  skips keeps \<open>g[i]\<close> and its weight while \<open>u\<close> falls.\<close>

lemma RDA_update_opposes:
  assumes inv: "RDA_inv vis s" and upd: "RDA_update vis s x y = Inr (b, s')"
    and t: "Suc (RDA_timestep s) < 2 ^ 64"
    and opp: "\<forall>i < RDA_kDim s. 0 < RDA_timestep s \<and> RDA_kLambda s < \<bar>RDA_g s ! i\<bar> / real (RDA_timestep s)
                \<longrightarrow> RDA_w s ! i * RDA_g s ! i < 0"
  shows "\<forall>i < RDA_kDim s'. 0 < RDA_timestep s' \<and> RDA_kLambda s' < \<bar>RDA_g s' ! i\<bar> / real (RDA_timestep s')
                \<longrightarrow> RDA_w s' ! i * RDA_g s' ! i < 0"
proof (cases b)
  case False
  with RDA_update_cases(2) [OF upd] opp show ?thesis by simp
next
  case True
  note st = RDA_update_inv [OF inv upd t]
  from st(5) True have t': "RDA_timestep s' = Suc (RDA_timestep s)" by simp
  from inv have lam: "0 < RDA_kLambda s" and eta: "0 < RDA_kEta s"
    by (simp_all add: RDA_inv_def)
  show ?thesis
  proof (intro allI impI)
    fix i assume "i < RDA_kDim s'"
      and "0 < RDA_timestep s' \<and> RDA_kLambda s' < \<bar>RDA_g s' ! i\<bar> / real (RDA_timestep s')"
    then have i: "i < RDA_kDim s"
      and u: "RDA_kLambda s < \<bar>RDA_g s' ! i\<bar> / real (Suc (RDA_timestep s))"
      by (simp_all add: st(2,3) t')
    from upd True have upd': "RDA_update vis s x y = Inr (True, s')" by simp
    note g' = RDA_update_g [OF inv upd' i]
    from st(6) [OF True] i have w': "RDA_w s' ! i =
            (if visited vis (x ! i)
             then RDA_weight (RDA_kEta s) (RDA_kLambda s) (Suc (RDA_timestep s)) (RDA_g s' ! i) (RDA_h s' ! i)
             else RDA_w s ! i)"
      by (simp add: st(3,4) t')
    show "RDA_w s' ! i * RDA_g s' ! i < 0"
    proof (cases "visited vis (x ! i)")
      case True
      from st(1) i have gh: "RDA_g s' ! i \<noteq> 0 \<longrightarrow> 0 < RDA_h s' ! i"
        by (simp add: RDA_inv_def st(2))
      have "0 < Suc (RDA_timestep s)" by simp
      from RDA_weight_sign(3) [OF eta lam this gh u] True w' show ?thesis
        by simp
    next
      case False
      then have "x ! i = 0" by (rule not_visited_zero)
      with g' have g: "RDA_g s' ! i = RDA_g s ! i" by simp
      from False w' have w: "RDA_w s' ! i = RDA_w s ! i" by simp
      have pos: "0 < RDA_timestep s"
      proof (rule ccontr)
        assume "\<not> 0 < RDA_timestep s"
        then have "RDA_timestep s = 0" by simp
        with inv i have "RDA_g s ! i = 0" by (simp add: RDA_inv_def)
        with u g lam show False by simp
      qed
      then have "\<bar>RDA_g s ! i\<bar> / real (Suc (RDA_timestep s)) \<le> \<bar>RDA_g s ! i\<bar> / real (RDA_timestep s)"
        by (intro divide_left_mono) simp_all
      with u g have "RDA_kLambda s < \<bar>RDA_g s ! i\<bar> / real (RDA_timestep s)"
        by simp
      with opp i pos have "RDA_w s ! i * RDA_g s ! i < 0" by blast
      with g w show ?thesis by simp
    qed
  qed
qed

lemma RDA_updates_opposes:
  assumes "RDA_inv vis s" and "RDA_timestep s + length cs < 2 ^ 64" and "RDA_updates vis s cs = Inr s'"
    and "\<forall>i < RDA_kDim s. 0 < RDA_timestep s \<and> RDA_kLambda s < \<bar>RDA_g s ! i\<bar> / real (RDA_timestep s)
                \<longrightarrow> RDA_w s ! i * RDA_g s ! i < 0"
  shows "(\<forall>i < RDA_kDim s'. 0 < RDA_timestep s' \<and> RDA_kLambda s' < \<bar>RDA_g s' ! i\<bar> / real (RDA_timestep s')
                \<longrightarrow> RDA_w s' ! i * RDA_g s' ! i < 0)
       \<and> RDA_timestep s' \<le> RDA_timestep s + length cs"
  using assms
proof (induction cs arbitrary: s)
  case Nil
  then show ?case by simp
next
  case (Cons c cs)
  from Cons.prems(3) obtain b s1 where u: "RDA_update vis s (fst c) (snd c) = Inr (b, s1)"
    and r: "RDA_updates vis s1 cs = Inr s'"
    by (auto split: sum.splits)
  from Cons.prems(2) have t: "Suc (RDA_timestep s) < 2 ^ 64" by simp
  note st = RDA_update_inv [OF Cons.prems(1) u t]
  from st(5) Cons.prems(2) have t1: "RDA_timestep s1 + length cs < 2 ^ 64"
    by (simp split: if_splits)
  note o1 = RDA_update_opposes [OF Cons.prems(1) u t Cons.prems(4)]
  from Cons.IH [OF st(1) t1 r o1] st(5) show ?case
    by (simp split: if_splits)
qed

text \<open>
  C10, as the code has it under both readings of the iteration. From the state the
  constructor builds, after every sequence of fewer than \<open>2\<^sup>6\<^sup>4\<close> successful \<^verbatim>\<open>update\<close>
  calls, every coordinate \<open>i\<close> satisfies \<open>w[i] * g[i] \<le> 0\<close>; before the first effective
  update both are 0; and whenever \<open>|g[i]| / timestep > lambda\<close> the weight is not zero and
  has the sign opposite to \<open>g[i]\<close>: \<open>w[i] * g[i] < 0\<close>. The weight is exactly 0 whenever
  \<open>|g[i]| / timestep \<le> lambda\<close> for every coordinate that the last effective update has
  visited: for every coordinate when the iteration visits every entry, and for the
  coordinates with \<open>x[i] \<noteq> 0\<close> in the feature vector of that update when it visits the
  non-zero entries. A coordinate that later updates skip keeps the weight of its last visit
  while the time step grows.
\<close>

theorem RDA_weight_opposes_gradient:
  assumes "ADAGRAD_RDA_ctor d eta lambda = Inr s0" and "RDA_updates vis s0 cs = Inr s"
    and "length cs < 2 ^ 64" and "i < d"
  shows "RDA_w s ! i * RDA_g s ! i \<le> 0
       \<and> (RDA_timestep s = 0 \<longrightarrow> RDA_w s ! i = 0 \<and> RDA_g s ! i = 0)
       \<and> (0 < RDA_timestep s \<and> lambda < \<bar>RDA_g s ! i\<bar> / real (RDA_timestep s) \<longrightarrow>
            RDA_w s ! i * RDA_g s ! i < 0)
       \<and> (vis = EveryEntry \<and> 0 < RDA_timestep s \<and> \<bar>RDA_g s ! i\<bar> / real (RDA_timestep s) \<le> lambda \<longrightarrow>
            RDA_w s ! i = 0)
       \<and> (Suc (length cs) < 2 ^ 64 \<and> RDA_update vis s x y = Inr (True, s') \<and> visited vis (x ! i)
            \<and> \<bar>RDA_g s' ! i\<bar> / real (RDA_timestep s') \<le> lambda \<longrightarrow>
            RDA_w s' ! i = 0)"
proof -
  note c = RDA_inv_ctor [OF assms(1)]
  from c(2) assms(3) have bound: "RDA_timestep s0 + length cs < 2 ^ 64" by simp
  from RDA_updates_inv [OF c(1) bound assms(2)] c
  have inv: "RDA_inv vis s" and k: "RDA_kDim s = d" "RDA_kLambda s = lambda"
    by simp_all
  have "\<forall>i < RDA_kDim s0. 0 < RDA_timestep s0 \<and> RDA_kLambda s0 < \<bar>RDA_g s0 ! i\<bar> / real (RDA_timestep s0)
                \<longrightarrow> RDA_w s0 ! i * RDA_g s0 ! i < 0"
    by (simp add: c(2))
  from RDA_updates_opposes [OF c(1) bound assms(2) this] c(2)
  have opp: "\<forall>i < RDA_kDim s. 0 < RDA_timestep s \<and> RDA_kLambda s < \<bar>RDA_g s ! i\<bar> / real (RDA_timestep s)
                \<longrightarrow> RDA_w s ! i * RDA_g s ! i < 0"
    and ts: "RDA_timestep s \<le> length cs"
    by simp_all
  from inv k assms(4) have eta: "0 < RDA_kEta s" and lam: "0 < lambda"
    and gh: "RDA_g s ! i \<noteq> 0 \<longrightarrow> 0 < RDA_h s ! i"
    and z: "RDA_timestep s = 0 \<longrightarrow> RDA_w s ! i = 0 \<and> RDA_g s ! i = 0"
    and wg: "RDA_w s ! i * RDA_g s ! i \<le> 0"
    and w: "vis = EveryEntry \<and> 0 < RDA_timestep s \<longrightarrow>
              RDA_w s ! i = RDA_weight (RDA_kEta s) lambda (RDA_timestep s) (RDA_g s ! i) (RDA_h s ! i)"
    by (simp_all add: RDA_inv_def)
  from opp k assms(4)
  have strict: "0 < RDA_timestep s \<and> lambda < \<bar>RDA_g s ! i\<bar> / real (RDA_timestep s) \<longrightarrow>
            RDA_w s ! i * RDA_g s ! i < 0"
    by simp
  have every: "RDA_w s ! i = 0"
    if e: "vis = EveryEntry \<and> 0 < RDA_timestep s \<and> \<bar>RDA_g s ! i\<bar> / real (RDA_timestep s) \<le> lambda"
  proof -
    from e have t: "0 < RDA_timestep s" and u: "\<bar>RDA_g s ! i\<bar> / real (RDA_timestep s) \<le> lambda"
      by simp_all
    from w e have "RDA_w s ! i = RDA_weight (RDA_kEta s) lambda (RDA_timestep s) (RDA_g s ! i) (RDA_h s ! i)"
      by blast
    with RDA_weight_sign(2) [OF eta lam t gh u] show ?thesis
      by simp
  qed
  have last: "RDA_w s' ! i = 0"
    if e: "Suc (length cs) < 2 ^ 64 \<and> RDA_update vis s x y = Inr (True, s') \<and> visited vis (x ! i)
            \<and> \<bar>RDA_g s' ! i\<bar> / real (RDA_timestep s') \<le> lambda"
  proof -
    from e have upd: "RDA_update vis s x y = Inr (True, s')" and v: "visited vis (x ! i)"
      and u: "\<bar>RDA_g s' ! i\<bar> / real (RDA_timestep s') \<le> lambda"
      by simp_all
    from e ts have t: "Suc (RDA_timestep s) < 2 ^ 64" by simp
    note st = RDA_update_inv [OF inv upd t]
    from st(6) k assms(4) v
    have "RDA_w s' ! i = RDA_weight (RDA_kEta s') (RDA_kLambda s') (RDA_timestep s') (RDA_g s' ! i) (RDA_h s' ! i)"
      by simp
    with u st(3) k show ?thesis
      by (simp add: RDA_weight_def)
  qed
  from wg z strict every last show ?thesis by blast
qed

text \<open>The theorem after the update of the example above with every entry visited: at
  coordinate 0, where \<open>u = 2\<close>, the weight opposes \<open>g\<close>, and at coordinate 1, where
  \<open>u = 1/2\<close>, it is 0. Then a second update with \<open>x = [1, 0]\<close> and \<open>y = -1\<close> that visits the
  non-zero entries: the loss is \<open>3/2\<close>, coordinate 0 is visited, its \<open>u\<close> is \<open>1/2\<close> and its
  weight becomes 0.\<close>

theorem RDA_weight_opposes_gradient_witness:
  "ADAGRAD_RDA_ctor 2 1 1
     = Inr \<lparr>RDA_kDim = 2, RDA_kEta = 1, RDA_kLambda = 1, RDA_timestep = 0, RDA_w = [0, 0], RDA_h = [0, 0], RDA_g = [0, 0]\<rparr>
   \<and> RDA_updates EveryEntry \<lparr>RDA_kDim = 2, RDA_kEta = 1, RDA_kLambda = 1, RDA_timestep = 0, RDA_w = [0, 0], RDA_h = [0, 0], RDA_g = [0, 0]\<rparr>
        [([2, 1 / 2], 1)]
       = Inr \<lparr>RDA_kDim = 2, RDA_kEta = 1, RDA_kLambda = 1, RDA_timestep = 1, RDA_w = [1 / 2, 0], RDA_h = [4, 1 / 4],
                      RDA_g = [- 2, - (1 / 2)]\<rparr>
   \<and> RDA_w \<lparr>RDA_kDim = 2, RDA_kEta = 1, RDA_kLambda = 1, RDA_timestep = 1, RDA_w = [1 / 2, 0], RDA_h = [4, 1 / 4],
                      RDA_g = [- 2, - (1 / 2)]\<rparr> ! 0
     * RDA_g \<lparr>RDA_kDim = 2, RDA_kEta = 1, RDA_kLambda = 1, RDA_timestep = 1, RDA_w = [1 / 2, 0], RDA_h = [4, 1 / 4],
                      RDA_g = [- 2, - (1 / 2)]\<rparr> ! 0 < 0
   \<and> RDA_w \<lparr>RDA_kDim = 2, RDA_kEta = 1, RDA_kLambda = 1, RDA_timestep = 1, RDA_w = [1 / 2, 0], RDA_h = [4, 1 / 4],
                      RDA_g = [- 2, - (1 / 2)]\<rparr> ! 1 = 0
   \<and> RDA_updates NonZeroEntries \<lparr>RDA_kDim = 2, RDA_kEta = 1, RDA_kLambda = 1, RDA_timestep = 0, RDA_w = [0, 0], RDA_h = [0, 0], RDA_g = [0, 0]\<rparr>
        [([2, 1 / 2], 1)]
       = Inr \<lparr>RDA_kDim = 2, RDA_kEta = 1, RDA_kLambda = 1, RDA_timestep = 1, RDA_w = [1 / 2, 0], RDA_h = [4, 1 / 4],
                      RDA_g = [- 2, - (1 / 2)]\<rparr>
   \<and> RDA_update NonZeroEntries \<lparr>RDA_kDim = 2, RDA_kEta = 1, RDA_kLambda = 1, RDA_timestep = 1, RDA_w = [1 / 2, 0], RDA_h = [4, 1 / 4],
                      RDA_g = [- 2, - (1 / 2)]\<rparr> [1, 0] (- 1)
       = Inr (True, \<lparr>RDA_kDim = 2, RDA_kEta = 1, RDA_kLambda = 1, RDA_timestep = 2, RDA_w = [0, 0], RDA_h = [5, 1 / 4],
                      RDA_g = [- 1, - (1 / 2)]\<rparr>)
   \<and> RDA_w \<lparr>RDA_kDim = 2, RDA_kEta = 1, RDA_kLambda = 1, RDA_timestep = 2, RDA_w = [0, 0], RDA_h = [5, 1 / 4],
                      RDA_g = [- 1, - (1 / 2)]\<rparr> ! 0 = 0"
proof -
  let ?s0 = "\<lparr>RDA_kDim = 2, RDA_kEta = 1, RDA_kLambda = 1, RDA_timestep = 0, RDA_w = [0, 0], RDA_h = [0, 0], RDA_g = [0, 0]\<rparr>"
  let ?s1 = "\<lparr>RDA_kDim = 2, RDA_kEta = 1, RDA_kLambda = 1, RDA_timestep = 1, RDA_w = [1 / 2, 0], RDA_h = [4, 1 / 4],
                      RDA_g = [- 2, - (1 / 2)]\<rparr>"
  let ?s2 = "\<lparr>RDA_kDim = 2, RDA_kEta = 1, RDA_kLambda = 1, RDA_timestep = 2, RDA_w = [0, 0], RDA_h = [5, 1 / 4],
                      RDA_g = [- 1, - (1 / 2)]\<rparr>"
  have ups: "RDA_updates EveryEntry ?s0 [([2, 1 / 2], 1)] = Inr ?s1"
    and upn: "RDA_updates NonZeroEntries ?s0 [([2, 1 / 2], 1)] = Inr ?s1"
    by (simp_all add: RDA_example_update)
  have l: "length [([2, 1 / 2] :: real list, 1 :: int)] < 2 ^ 64" "(0 :: nat) < 2" "(1 :: nat) < 2"
    by simp_all
  have u2: "RDA_update NonZeroEntries ?s1 [1, 0] (- 1) = Inr (True, ?s2)"
    by (simp add: RDA_update_def RDA_suffer_loss_def dot_def RDA_update_body_def RDA_weight_def Let_def)
  from RDA_weight_opposes_gradient [OF RDA_example_ctor ups l(1,2)]
  have a: "RDA_w ?s1 ! 0 * RDA_g ?s1 ! 0 < 0"
    by simp
  from RDA_weight_opposes_gradient [OF RDA_example_ctor ups l(1,3)]
  have b: "RDA_w ?s1 ! 1 = 0"
    by simp
  from RDA_weight_opposes_gradient [OF RDA_example_ctor upn l(1,2), where x = "[1, 0]" and y = "- 1" and s' = ?s2] u2
  have c: "RDA_w ?s2 ! 0 = 0"
    by simp
  from RDA_example_ctor ups a b upn u2 c show ?thesis
    by blast
qed

text \<open>
  C10 as the specification states it fails when the iteration visits the non-zero entries, as
  the specification words the update. The fresh model \<^verbatim>\<open>ADAGRAD_RDA(2, 1, 1)\<close> is updated
  with \<open>x = [2, 2]\<close>, \<open>y = 1\<close> and then with \<open>x = [1, 0]\<close>, \<open>y = -1\<close>; both updates are
  effective. The first leaves \<open>g = [-2, -2]\<close> and \<open>w = [1/2, 1/2]\<close>. The second skips
  coordinate 1, whose \<open>g\<close> stays \<open>-2\<close> and whose weight stays \<open>1/2\<close>, while the time step
  becomes 2: then \<open>|g[1]| / timestep = 1 \<le> lambda\<close> and the weight is not 0.
\<close>

theorem RDA_zero_weight_counterexample:
  "ADAGRAD_RDA_ctor 2 1 1
     = Inr \<lparr>RDA_kDim = 2, RDA_kEta = 1, RDA_kLambda = 1, RDA_timestep = 0, RDA_w = [0, 0], RDA_h = [0, 0], RDA_g = [0, 0]\<rparr>
   \<and> RDA_updates NonZeroEntries \<lparr>RDA_kDim = 2, RDA_kEta = 1, RDA_kLambda = 1, RDA_timestep = 0, RDA_w = [0, 0], RDA_h = [0, 0], RDA_g = [0, 0]\<rparr>
        [([2, 2], 1), ([1, 0], - 1)]
       = Inr \<lparr>RDA_kDim = 2, RDA_kEta = 1, RDA_kLambda = 1, RDA_timestep = 2, RDA_w = [0, 1 / 2], RDA_h = [5, 4],
                      RDA_g = [- 1, - 2]\<rparr>
   \<and> \<bar>RDA_g \<lparr>RDA_kDim = 2, RDA_kEta = 1, RDA_kLambda = 1, RDA_timestep = 2, RDA_w = [0, 1 / 2], RDA_h = [5, 4],
                      RDA_g = [- 1, - 2]\<rparr> ! 1\<bar>
       / real (RDA_timestep \<lparr>RDA_kDim = 2, RDA_kEta = 1, RDA_kLambda = 1, RDA_timestep = 2, RDA_w = [0, 1 / 2], RDA_h = [5, 4],
                      RDA_g = [- 1, - 2]\<rparr>)
       \<le> RDA_kLambda \<lparr>RDA_kDim = 2, RDA_kEta = 1, RDA_kLambda = 1, RDA_timestep = 2, RDA_w = [0, 1 / 2], RDA_h = [5, 4],
                      RDA_g = [- 1, - 2]\<rparr>
   \<and> RDA_w \<lparr>RDA_kDim = 2, RDA_kEta = 1, RDA_kLambda = 1, RDA_timestep = 2, RDA_w = [0, 1 / 2], RDA_h = [5, 4],
                      RDA_g = [- 1, - 2]\<rparr> ! 1 \<noteq> 0"
proof -
  have "RDA_updates NonZeroEntries \<lparr>RDA_kDim = 2, RDA_kEta = 1, RDA_kLambda = 1, RDA_timestep = 0, RDA_w = [0, 0], RDA_h = [0, 0], RDA_g = [0, 0]\<rparr>
        [([2, 2], 1), ([1, 0], - 1)]
       = Inr \<lparr>RDA_kDim = 2, RDA_kEta = 1, RDA_kLambda = 1, RDA_timestep = 2, RDA_w = [0, 1 / 2], RDA_h = [5, 4],
                      RDA_g = [- 1, - 2]\<rparr>"
    by (simp add: RDA_update_def RDA_suffer_loss_def dot_def RDA_update_body_def RDA_weight_def Let_def)
  with RDA_example_ctor show ?thesis
    by simp
qed

section \<open>The update loop of NHERD, coordinate by coordinate\<close>

lemma NHERD_confidence_loop:
  assumes "i + length vs \<le> length (NHERD_covariances s)"
  shows "enumerate_from vis i vs (NHERD_confidence_body s) acc
           = Inr (acc + sum_list (map2 (\<lambda>c v. c * v * v) (drop i (NHERD_covariances s)) vs))"
  using assms
proof (induction vs arbitrary: i acc)
  case Nil
  then show ?case by simp
next
  case (Cons v vs)
  then have i: "i < length (NHERD_covariances s)" by simp
  then have d: "drop i (NHERD_covariances s) = NHERD_covariances s ! i # drop (Suc i) (NHERD_covariances s)"
    by (simp add: Cons_nth_drop_Suc)
  from Cons.prems have "Suc i + length vs \<le> length (NHERD_covariances s)" by simp
  note ih = Cons.IH [OF this]
  show ?case
  proof (cases "visited vis v")
    case True
    with ih i show ?thesis
      by (simp add: NHERD_confidence_body_def d)
  next
    case False
    then have "v = 0" by (rule not_visited_zero)
    with False ih show ?thesis
      by (simp add: d)
  qed
qed

lemma NHERD_cov_zero: "NHERD_cov f C c conf 0 = c"
  by (cases f) simp_all

lemma NHERD_loop:
  assumes "NHERD_compute_covariance s = Some f" and "i + length vs \<le> length (NHERD_means s)"
    and "length (NHERD_covariances s) = length (NHERD_means s)"
  shows "\<exists>m' c'. enumerate_from vis i vs (NHERD_update_body y alpha conf) s
                   = Inr (s\<lparr>NHERD_covariances := c', NHERD_means := m'\<rparr>)
           \<and> length m' = length (NHERD_means s) \<and> length c' = length (NHERD_means s)
           \<and> (\<forall>j < length (NHERD_means s).
                 m' ! j = (if i \<le> j \<and> j < i + length vs
                           then NHERD_means s ! j + alpha * real_of_int y * NHERD_covariances s ! j * vs ! (j - i)
                           else NHERD_means s ! j)
               \<and> c' ! j = (if i \<le> j \<and> j < i + length vs
                           then NHERD_cov f (NHERD_kC s) (NHERD_covariances s ! j) conf (vs ! (j - i))
                           else NHERD_covariances s ! j))"
  using assms
proof (induction vs arbitrary: i s)
  case Nil
  have "s\<lparr>NHERD_covariances := NHERD_covariances s, NHERD_means := NHERD_means s\<rparr> = s" by simp
  with Nil show ?case
    by (intro exI [of _ "NHERD_means s"] exI [of _ "NHERD_covariances s"]) simp
next
  case (Cons v vs)
  define mi where "mi = NHERD_means s ! i + alpha * real_of_int y * NHERD_covariances s ! i * v"
  define ci where "ci = NHERD_cov f (NHERD_kC s) (NHERD_covariances s ! i) conf v"
  define s1 where "s1 = s\<lparr>NHERD_means := (NHERD_means s)[i := mi],
                          NHERD_covariances := (NHERD_covariances s)[i := ci]\<rparr>"
  have step: "enumerate_from vis i (v # vs) (NHERD_update_body y alpha conf) s
                = enumerate_from vis (Suc i) vs (NHERD_update_body y alpha conf) s1"
  proof (cases "visited vis v")
    case True
    with Cons.prems show ?thesis
      by (simp add: NHERD_update_body_def s1_def mi_def ci_def)
  next
    case False
    then have "v = 0" by (rule not_visited_zero)
    then have "s1 = s" by (simp add: s1_def mi_def ci_def NHERD_cov_zero)
    with False show ?thesis by simp
  qed
  have s1: "NHERD_means s1 = (NHERD_means s)[i := mi]"
    "NHERD_covariances s1 = (NHERD_covariances s)[i := ci]"
    "NHERD_kC s1 = NHERD_kC s" "NHERD_compute_covariance s1 = NHERD_compute_covariance s"
    by (simp_all add: s1_def)
  have "NHERD_compute_covariance s1 = Some f" "Suc i + length vs \<le> length (NHERD_means s1)"
    "length (NHERD_covariances s1) = length (NHERD_means s1)"
    using Cons.prems by (simp_all add: s1)
  from Cons.IH [OF this] obtain m' c' where
    run: "enumerate_from vis (Suc i) vs (NHERD_update_body y alpha conf) s1
            = Inr (s1\<lparr>NHERD_covariances := c', NHERD_means := m'\<rparr>)"
    and len: "length m' = length (NHERD_means s1)" "length c' = length (NHERD_means s1)"
    and pt: "\<forall>j < length (NHERD_means s1).
                 m' ! j = (if Suc i \<le> j \<and> j < Suc i + length vs
                           then NHERD_means s1 ! j + alpha * real_of_int y * NHERD_covariances s1 ! j * vs ! (j - Suc i)
                           else NHERD_means s1 ! j)
               \<and> c' ! j = (if Suc i \<le> j \<and> j < Suc i + length vs
                           then NHERD_cov f (NHERD_kC s1) (NHERD_covariances s1 ! j) conf (vs ! (j - Suc i))
                           else NHERD_covariances s1 ! j)"
    by blast
  have "s1\<lparr>NHERD_covariances := c', NHERD_means := m'\<rparr> = s\<lparr>NHERD_covariances := c', NHERD_means := m'\<rparr>"
    by (simp add: s1_def)
  moreover have "enumerate_from vis i (v # vs) (NHERD_update_body y alpha conf) s
                        = Inr (s1\<lparr>NHERD_covariances := c', NHERD_means := m'\<rparr>)"
    unfolding step by (rule run)
  ultimately have "enumerate_from vis i (v # vs) (NHERD_update_body y alpha conf) s
                        = Inr (s\<lparr>NHERD_covariances := c', NHERD_means := m'\<rparr>)"
    by (simp only:)
  moreover have "length m' = length (NHERD_means s)" "length c' = length (NHERD_means s)"
    using len by (simp_all add: s1)
  moreover have "m' ! j = (if i \<le> j \<and> j < i + length (v # vs)
                           then NHERD_means s ! j + alpha * real_of_int y * NHERD_covariances s ! j * (v # vs) ! (j - i)
                           else NHERD_means s ! j)
               \<and> c' ! j = (if i \<le> j \<and> j < i + length (v # vs)
                           then NHERD_cov f (NHERD_kC s) (NHERD_covariances s ! j) conf ((v # vs) ! (j - i))
                           else NHERD_covariances s ! j)"
    if j: "j < length (NHERD_means s)" for j
  proof -
    from j have j1: "j < length (NHERD_means s1)" by (simp add: s1)
    consider "j < i" | "j = i" | "i < j"
      by linarith
    then show ?thesis
    proof cases
      case 1
      with pt [rule_format, OF j1] show ?thesis by (simp add: s1)
    next
      case 2
      with pt [rule_format, OF j1] j Cons.prems show ?thesis by (simp add: s1 mi_def ci_def)
    next
      case 3
      with pt [rule_format, OF j1] show ?thesis by (simp add: s1 nth_Cons_shift)
    qed
  qed
  ultimately show ?case by blast
qed

lemma NHERD_update_closed:
  assumes f: "NHERD_compute_covariance s = Some f"
    and len: "length x = length (NHERD_means s)" "length (NHERD_covariances s) = length (NHERD_means s)"
  shows "NHERD_update vis s x y =
    (let margin = sum_list (map2 (*) (NHERD_means s) x);
         conf = sum_list (map2 (\<lambda>c v. c * v * v) (NHERD_covariances s) x);
         alpha = max 0 (1 - real_of_int y * margin) / (conf + 1 / NHERD_kC s)
     in if margin * real_of_int y \<ge> 1 then Inr (False, s)
        else Inr (True, s\<lparr>NHERD_covariances :=
                             map2 (\<lambda>c v. NHERD_cov f (NHERD_kC s) c conf v) (NHERD_covariances s) x,
                           NHERD_means :=
                             map (\<lambda>(m, c, v). m + alpha * real_of_int y * c * v)
                               (zip (NHERD_means s) (zip (NHERD_covariances s) x))\<rparr>))"
proof -
  define margin where "margin = sum_list (map2 (*) (NHERD_means s) x)"
  define conf where "conf = sum_list (map2 (\<lambda>c v. c * v * v) (NHERD_covariances s) x)"
  define alpha where "alpha = max 0 (1 - real_of_int y * margin) / (conf + 1 / NHERD_kC s)"
  have m: "NHERD_compute_margin s x = Inr margin"
    using len by (simp add: NHERD_compute_margin_def dot_def margin_def)
  have "0 + length x \<le> length (NHERD_covariances s)" using len by simp
  from NHERD_confidence_loop [OF this, of vis 0] have c: "NHERD_compute_confidence vis s x = Inr conf"
    by (simp add: NHERD_compute_confidence_def conf_def)
  have "0 + length x \<le> length (NHERD_means s)" using len by simp
  from NHERD_loop [OF f this len(2), of vis y alpha conf] obtain m' c' where
    run: "enumerate_from vis 0 x (NHERD_update_body y alpha conf) s
            = Inr (s\<lparr>NHERD_covariances := c', NHERD_means := m'\<rparr>)"
    and l: "length m' = length (NHERD_means s)" "length c' = length (NHERD_means s)"
    and pt: "\<forall>j < length (NHERD_means s).
                 m' ! j = (if 0 \<le> j \<and> j < 0 + length x
                           then NHERD_means s ! j + alpha * real_of_int y * NHERD_covariances s ! j * x ! (j - 0)
                           else NHERD_means s ! j)
               \<and> c' ! j = (if 0 \<le> j \<and> j < 0 + length x
                           then NHERD_cov f (NHERD_kC s) (NHERD_covariances s ! j) conf (x ! (j - 0))
                           else NHERD_covariances s ! j)"
    by blast
  have m': "m' = map (\<lambda>(m, c, v). m + alpha * real_of_int y * c * v)
                   (zip (NHERD_means s) (zip (NHERD_covariances s) x))"
    using pt l len by (intro nth_equalityI) simp_all
  have c': "c' = map2 (\<lambda>c v. NHERD_cov f (NHERD_kC s) c conf v) (NHERD_covariances s) x"
    using pt l len by (intro nth_equalityI) simp_all
  have "NHERD_update vis s x y =
     (if margin * real_of_int y \<ge> 1 then Inr (False, s)
      else Inr (True, s\<lparr>NHERD_covariances := c', NHERD_means := m'\<rparr>))"
    using m c run by (simp add: NHERD_update_def NHERD_suffer_loss_def alpha_def Let_def)
  then show ?thesis
    unfolding Let_def m' c' margin_def conf_def alpha_def .
qed


lemma NHERD_confidence_nonneg:
  assumes "\<forall>c \<in> set cs. (0 :: real) < c"
  shows "0 \<le> sum_list (map2 (\<lambda>c v. c * v ^ 2) cs x)"
proof (rule sum_list_nonneg)
  fix q assume "q \<in> set (map2 (\<lambda>c v. c * v ^ 2) cs x)"
  then obtain c v where cv: "(c, v) \<in> set (zip cs x)" and q: "q = c * v ^ 2"
    by auto
  from cv have "c \<in> set cs" by (rule set_zip_leftD)
  with assms have "0 < c" by simp
  moreover have "0 \<le> v ^ 2" by simp
  ultimately show "0 \<le> q" unfolding q by (simp add: mult_nonneg_nonneg)
qed

lemma NHERD_ctor_closure:
  "NHERD_ctor d C k = Inr s \<Longrightarrow> NHERD_compute_covariance s = NHERD_switch k"
  by (auto simp: NHERD_ctor_def)

lemma NHERD_update_formula:
  assumes "NHERD_compute_covariance s = Some f"
    and "length x = length (NHERD_means s)"
    and "length (NHERD_covariances s) = length (NHERD_means s)"
    and "0 < NHERD_kC s"
    and "\<forall>c \<in> set (NHERD_covariances s). 0 < c"
  shows "(1 \<le> sum_list (map2 (*) (NHERD_means s) x) * real_of_int y \<longrightarrow>
            NHERD_update vis s x y = Inr (False, s))
       \<and> (sum_list (map2 (*) (NHERD_means s) x) * real_of_int y < 1 \<longrightarrow>
            NHERD_update vis s x y =
              Inr (True, s\<lparr>NHERD_covariances :=
                     map2 (\<lambda>c v. NHERD_cov f (NHERD_kC s) c
                                    (sum_list (map2 (\<lambda>c v. c * v ^ 2) (NHERD_covariances s) x)) v)
                       (NHERD_covariances s) x,
                   NHERD_means :=
                     map (\<lambda>(m, c, v).
                            m + max 0 (1 - real_of_int y * sum_list (map2 (*) (NHERD_means s) x))
                                / (sum_list (map2 (\<lambda>c v. c * v ^ 2) (NHERD_covariances s) x) + 1 / NHERD_kC s)
                                * real_of_int y * c * v)
                       (zip (NHERD_means s) (zip (NHERD_covariances s) x))\<rparr>))
       \<and> 0 < sum_list (map2 (\<lambda>c v. c * v ^ 2) (NHERD_covariances s) x) + 1 / NHERD_kC s"
proof -
  have sq: "(\<lambda>c v. c * v * v) = (\<lambda>c v :: real. c * v ^ 2)"
    by (simp add: fun_eq_iff power2_eq_square)
  note closed = NHERD_update_closed [OF assms(1-3), of vis y, unfolded Let_def sq]
  have "0 < 1 / NHERD_kC s" using assms(4) by simp
  with NHERD_confidence_nonneg [OF assms(5), of x]
  have "0 < sum_list (map2 (\<lambda>c v. c * v ^ 2) (NHERD_covariances s) x) + 1 / NHERD_kC s"
    by linarith
  with closed show ?thesis by simp
qed

lemma nth_le_sum_list_nonneg:
  assumes "\<forall>q \<in> set qs. (0 :: real) \<le> q" and "j < length qs"
  shows "qs ! j \<le> sum_list qs"
  using assms
proof (induction qs arbitrary: j)
  case Nil
  then show ?case by simp
next
  case (Cons q qs)
  then have nn: "0 \<le> sum_list qs" "0 \<le> q"
    by (simp_all add: sum_list_nonneg)
  show ?case
  proof (cases j)
    case 0
    with nn show ?thesis by simp
  next
    case (Suc k)
    with Cons.prems have "qs ! k \<le> sum_list qs"
      by (intro Cons.IH) simp_all
    with Suc nn show ?thesis by simp
  qed
qed

lemma NHERD_cov_pos:
  assumes C: "0 < C" and c: "0 < c" and a: "c * v ^ 2 \<le> conf"
  shows "0 < NHERD_cov f C c conf v"
proof -
  have a0: "0 \<le> c * v ^ 2" using c by simp
  with a have conf: "0 \<le> conf" by simp
  define K where "K = C * C * conf + 2 * C"
  define D where "D = (1 + C * conf) ^ 2"
  have K: "0 < K" unfolding K_def using C conf by (simp add: add_nonneg_pos)
  have "0 < 1 + C * conf" using C conf by (simp add: add_pos_nonneg)
  then have D: "0 < D" unfolding D_def by simp
  have "c * v ^ 2 * K \<le> conf * K"
    using a K by (intro mult_right_mono) simp_all
  also have "conf * K = D - 1"
    by (simp add: K_def D_def power2_eq_square algebra_simps)
  finally have "c * v ^ 2 * K < D" by simp
  with D have lt: "c * v ^ 2 * K / D < 1" by simp
  have full: "0 < c - c * v * (c * v) * K / D"
  proof -
    have "c - c * v * (c * v) * K / D = c * (1 - c * v ^ 2 * K / D)"
      by (simp add: power2_eq_square algebra_simps)
    also have "0 < \<dots>" using c lt by (intro mult_pos_pos) simp_all
    finally show ?thesis .
  qed
  show ?thesis
  proof (cases f)
    case CovFull
    with full show ?thesis by (simp add: Let_def K_def D_def)
  next
    case CovExact
    have "C * v * v * c = C * c * (v * v)" by simp
    moreover have "0 \<le> C * c" "0 \<le> v * v" using C c by simp_all
    then have "0 \<le> C * c * (v * v)" by (rule mult_nonneg_nonneg)
    ultimately have "0 \<le> C * v * v * c" by (simp only:)
    then have "0 < (1 + C * v * v * c) ^ 2" by (simp add: add_pos_nonneg)
    with c CovExact show ?thesis by simp
  next
    case CovProject
    have "(2 * C + C * C * conf) * v * v = (2 * C + C * C * conf) * (v * v)" by simp
    moreover have "0 \<le> 2 * C + C * C * conf" "0 \<le> v * v" using C conf by simp_all
    then have "0 \<le> (2 * C + C * C * conf) * (v * v)" by (rule mult_nonneg_nonneg)
    ultimately have "0 \<le> (2 * C + C * C * conf) * v * v" by (simp only:)
    moreover have "0 < 1 / c" using c by simp
    ultimately have "0 < 1 / c + (2 * C + C * C * conf) * v * v" by linarith
    with CovProject show ?thesis by simp
  next
    case CovDrop
    have "(c * v) ^ 2 = c * v * (c * v)" by (simp add: power2_eq_square)
    with full CovDrop show ?thesis by (simp add: Let_def K_def D_def)
  qed
qed

lemma NHERD_inv_ctor:
  assumes "NHERD_ctor d C k = Inr s" and "0 < C" and "0 \<le> k" and "k \<le> 3"
  shows "NHERD_inv s"
proof -
  from assms(3,4) have "NHERD_switch k \<noteq> None"
    by (simp add: NHERD_switch_def)
  with assms(1,2) show ?thesis
    by (auto simp: NHERD_ctor_def NHERD_inv_def)
qed

lemma NHERD_update_inv:
  assumes inv: "NHERD_inv s" and upd: "NHERD_update vis s x y = Inr (b, s')"
  shows "NHERD_inv s'"
proof -
  from inv obtain f where f: "NHERD_compute_covariance s = Some f"
    by (auto simp: NHERD_inv_def)
  from upd have lx: "length x = length (NHERD_means s)"
    by (auto simp: NHERD_update_def NHERD_compute_margin_def dot_def split: if_splits)
  from inv have lc: "length (NHERD_covariances s) = length (NHERD_means s)"
    and C: "0 < NHERD_kC s" and pos: "\<forall>c \<in> set (NHERD_covariances s). 0 < c"
    by (simp_all add: NHERD_inv_def)
  define conf where "conf = sum_list (map2 (\<lambda>c v. c * v ^ 2) (NHERD_covariances s) x)"
  note t = NHERD_update_formula [OF f lx lc C pos, where vis = vis and y = y, folded conf_def]
  show ?thesis
  proof (cases "1 \<le> sum_list (map2 (*) (NHERD_means s) x) * real_of_int y")
    case True
    with t upd inv show ?thesis by simp
  next
    case False
    with t upd have s': "NHERD_covariances s' = map2 (\<lambda>c v. NHERD_cov f (NHERD_kC s) c conf v) (NHERD_covariances s) x"
      "length (NHERD_means s') = length (NHERD_means s)" "NHERD_kC s' = NHERD_kC s"
      "NHERD_kDim s' = NHERD_kDim s" "NHERD_compute_covariance s' = NHERD_compute_covariance s"
      using lx lc by auto
    have "0 < c'" if "c' \<in> set (NHERD_covariances s')" for c'
    proof -
      from that obtain j where j: "j < length x" and c': "c' = NHERD_cov f (NHERD_kC s) (NHERD_covariances s ! j) conf (x ! j)"
        using lx lc by (auto simp: s'(1) in_set_conv_nth)
      from j lx lc pos have cj: "0 < NHERD_covariances s ! j" by simp
      have nn: "\<forall>q \<in> set (map2 (\<lambda>c v. c * v ^ 2) (NHERD_covariances s) x). 0 \<le> q"
      proof
        fix q assume "q \<in> set (map2 (\<lambda>c v. c * v ^ 2) (NHERD_covariances s) x)"
        then obtain c v where cv: "(c, v) \<in> set (zip (NHERD_covariances s) x)" and q: "q = c * v ^ 2"
          by auto
        from cv have "c \<in> set (NHERD_covariances s)" by (rule set_zip_leftD)
        with pos have "0 < c" by simp
        then show "0 \<le> q" unfolding q by simp
      qed
      from j lx lc have "j < length (map2 (\<lambda>c v. c * v ^ 2) (NHERD_covariances s) x)" by simp
      from nth_le_sum_list_nonneg [OF nn this] j lx lc
      have "NHERD_covariances s ! j * (x ! j) ^ 2 \<le> conf"
        by (simp add: conf_def)
      from NHERD_cov_pos [OF C cj this] show ?thesis by (simp add: c')
    qed
    with inv f lc lx show ?thesis
      by (simp add: NHERD_inv_def s')
  qed
qed

section \<open>NHERD: means and covariances\<close>

text \<open>
  C8. For an NHERD state that satisfies the invariant of reachable states (\<open>C > 0\<close>, positive
  covariances, a closure set), whose closure is the one the constructor's switch chooses for
  the selector \<open>k\<close>, and a feature vector \<open>x\<close> of the model's dimension: \<^verbatim>\<open>update\<close> returns
  false and changes nothing when \<open>(mu . x) * y \<ge> 1\<close>; otherwise it returns true, with
  \<open>conf = sum_i Sigma[i] * x[i]\<^sup>2\<close> and \<open>alpha = max(0, 1 - y * (mu . x)) / (conf + 1 / C)\<close>,
  whose divisor is positive, adds \<open>alpha * y * Sigma[i] * x[i]\<close> (with the covariance before
  the update) to every \<open>mu[i]\<close> and replaces every \<open>Sigma[i]\<close>, written \<open>c\<close>, with
  \<open>v = x[i]\<close>, by

  \<^item> selector 0 (full): \<open>c - (c v)\<^sup>2 (C\<^sup>2 conf + 2 C) / (1 + C conf)\<^sup>2\<close>;
  \<^item> selector 1 (exact): \<open>c / (1 + C v\<^sup>2 c)\<^sup>2\<close>;
  \<^item> selector 2 (project): \<open>1 / (1 / c + (2 C + C\<^sup>2 conf) v\<^sup>2)\<close>;
  \<^item> selector 3 (drop): \<open>c - (c v)\<^sup>2 (C\<^sup>2 conf + 2 C) / (1 + C conf)\<^sup>2\<close>, the value of
    selector 0.

  Nothing else of the instance changes. Every successful update keeps the invariant and the
  closure, and the constructor called with selector \<open>k\<close> installs the closure of \<open>k\<close>, so the
  formula of every update of an instance is the one of the selector it was built with. The
  result is the same under both readings of the iteration: a zero entry adds nothing to
  \<open>conf\<close> and to the mean, and on a zero entry each formula returns \<open>c\<close>.
\<close>

theorem NHERD_update_mean_covariance:
  assumes "NHERD_inv s" and "NHERD_compute_covariance s = NHERD_switch k" and "length x = NHERD_kDim s"
  shows "(1 \<le> sum_list (map2 (*) (NHERD_means s) x) * real_of_int y \<longrightarrow>
            NHERD_update vis s x y = Inr (False, s))
       \<and> (sum_list (map2 (*) (NHERD_means s) x) * real_of_int y < 1 \<longrightarrow>
            NHERD_update vis s x y =
              Inr (True, s\<lparr>NHERD_covariances :=
                     map2 (\<lambda>c v.
                            if k = 0 then
                              c - c * v * (c * v)
                                  * (NHERD_kC s * NHERD_kC s * sum_list (map2 (\<lambda>c v. c * v ^ 2) (NHERD_covariances s) x) + 2 * NHERD_kC s)
                                  / (1 + NHERD_kC s * sum_list (map2 (\<lambda>c v. c * v ^ 2) (NHERD_covariances s) x)) ^ 2
                            else if k = 1 then
                              c / (1 + NHERD_kC s * v * v * c) ^ 2
                            else if k = 2 then
                              1 / (1 / c + (2 * NHERD_kC s
                                            + NHERD_kC s * NHERD_kC s * sum_list (map2 (\<lambda>c v. c * v ^ 2) (NHERD_covariances s) x)) * v * v)
                            else
                              c - (c * v) ^ 2
                                  * (NHERD_kC s * NHERD_kC s * sum_list (map2 (\<lambda>c v. c * v ^ 2) (NHERD_covariances s) x) + 2 * NHERD_kC s)
                                  / (1 + NHERD_kC s * sum_list (map2 (\<lambda>c v. c * v ^ 2) (NHERD_covariances s) x)) ^ 2)
                       (NHERD_covariances s) x,
                   NHERD_means :=
                     map (\<lambda>(m, c, v).
                            m + max 0 (1 - real_of_int y * sum_list (map2 (*) (NHERD_means s) x))
                                / (sum_list (map2 (\<lambda>c v. c * v ^ 2) (NHERD_covariances s) x) + 1 / NHERD_kC s)
                                * real_of_int y * c * v)
                       (zip (NHERD_means s) (zip (NHERD_covariances s) x))\<rparr>))
       \<and> 0 < sum_list (map2 (\<lambda>c v. c * v ^ 2) (NHERD_covariances s) x) + 1 / NHERD_kC s
       \<and> (k = 0 \<or> k = 1 \<or> k = 2 \<or> k = 3)
       \<and> (\<forall>b s'. NHERD_update vis s x y = Inr (b, s') \<longrightarrow>
             NHERD_inv s' \<and> NHERD_compute_covariance s' = NHERD_switch k)
       \<and> (\<forall>d C0 s0. NHERD_ctor d C0 k = Inr s0 \<longrightarrow> NHERD_compute_covariance s0 = NHERD_switch k)"
proof -
  from assms(1,3) have len: "length x = length (NHERD_means s)"
    "length (NHERD_covariances s) = length (NHERD_means s)" "0 < NHERD_kC s"
    "\<forall>c \<in> set (NHERD_covariances s). 0 < c"
    by (simp_all add: NHERD_inv_def)
  from assms(1,2) have set: "NHERD_switch k \<noteq> None"
    by (simp add: NHERD_inv_def)
  then have k: "k = 0 \<or> k = 1 \<or> k = 2 \<or> k = 3"
    by (simp add: NHERD_switch_def split: if_splits)
  from set obtain f where f: "NHERD_switch k = Some f"
    by blast
  have cov: "NHERD_cov f C c conf v =
               (if k = 0 then c - c * v * (c * v) * (C * C * conf + 2 * C) / (1 + C * conf) ^ 2
                else if k = 1 then c / (1 + C * v * v * c) ^ 2
                else if k = 2 then 1 / (1 / c + (2 * C + C * C * conf) * v * v)
                else c - (c * v) ^ 2 * (C * C * conf + 2 * C) / (1 + C * conf) ^ 2)"
    for C c conf v
    using k f by (auto simp: NHERD_switch_def Let_def)
  from assms(2) f have closure: "NHERD_compute_covariance s = Some f"
    by simp
  note formula = NHERD_update_formula [OF closure len, where vis = vis and y = y, unfolded cov]
  have kept: "NHERD_inv s' \<and> NHERD_compute_covariance s' = NHERD_switch k"
    if u: "NHERD_update vis s x y = Inr (b, s')" for b s'
  proof -
    from NHERD_update_inv [OF assms(1) u] have "NHERD_inv s'" .
    moreover have "NHERD_compute_covariance s' = NHERD_compute_covariance s"
    proof (cases "1 \<le> sum_list (map2 (*) (NHERD_means s) x) * real_of_int y")
      case True
      with formula u show ?thesis by simp
    next
      case False
      with formula u show ?thesis by auto
    qed
    ultimately show ?thesis using assms(2) by simp
  qed
  have ctor: "NHERD_compute_covariance s0 = NHERD_switch k" if "NHERD_ctor d C0 k = Inr s0" for d C0 s0
    using that by (rule NHERD_ctor_closure)
  from formula k kept ctor show ?thesis
    by blast
qed

text \<open>One update of each of the four fresh models \<^verbatim>\<open>NHERD(2, 1, k)\<close> with \<open>x = [1, 2]\<close> and
  \<open>y = 1\<close>: the margin is 0, \<open>conf = 5\<close> and \<open>alpha = 1/6\<close>, so the means become
  \<open>[1/6, 1/3]\<close>, and the covariances \<open>[29/36, 2/9]\<close> for the selectors 0 and 3,
  \<open>[1/4, 1/25]\<close> for 1 and \<open>[1/8, 1/29]\<close> for 2. Then, for selector 1, \<open>x = [6, 0]\<close> has
  margin 1 and nothing changes.\<close>

theorem NHERD_update_mean_covariance_witness:
  "NHERD_ctor 2 1 0 = Inr \<lparr>NHERD_kDim = 2, NHERD_kC = 1, NHERD_kDiagonal = 0, NHERD_covariances = [1, 1],
                           NHERD_means = [0, 0], NHERD_compute_covariance = Some CovFull\<rparr>
   \<and> NHERD_update NonZeroEntries \<lparr>NHERD_kDim = 2, NHERD_kC = 1, NHERD_kDiagonal = 0, NHERD_covariances = [1, 1],
                           NHERD_means = [0, 0], NHERD_compute_covariance = Some CovFull\<rparr> [1, 2] 1
       = Inr (True, \<lparr>NHERD_kDim = 2, NHERD_kC = 1, NHERD_kDiagonal = 0, NHERD_covariances = [29 / 36, 2 / 9],
                           NHERD_means = [1 / 6, 1 / 3], NHERD_compute_covariance = Some CovFull\<rparr>)
   \<and> NHERD_ctor 2 1 1 = Inr \<lparr>NHERD_kDim = 2, NHERD_kC = 1, NHERD_kDiagonal = 1, NHERD_covariances = [1, 1],
                           NHERD_means = [0, 0], NHERD_compute_covariance = Some CovExact\<rparr>
   \<and> NHERD_update NonZeroEntries \<lparr>NHERD_kDim = 2, NHERD_kC = 1, NHERD_kDiagonal = 1, NHERD_covariances = [1, 1],
                           NHERD_means = [0, 0], NHERD_compute_covariance = Some CovExact\<rparr> [1, 2] 1
       = Inr (True, \<lparr>NHERD_kDim = 2, NHERD_kC = 1, NHERD_kDiagonal = 1, NHERD_covariances = [1 / 4, 1 / 25],
                           NHERD_means = [1 / 6, 1 / 3], NHERD_compute_covariance = Some CovExact\<rparr>)
   \<and> NHERD_update NonZeroEntries \<lparr>NHERD_kDim = 2, NHERD_kC = 1, NHERD_kDiagonal = 1, NHERD_covariances = [1 / 4, 1 / 25],
                           NHERD_means = [1 / 6, 1 / 3], NHERD_compute_covariance = Some CovExact\<rparr> [6, 0] 1
       = Inr (False, \<lparr>NHERD_kDim = 2, NHERD_kC = 1, NHERD_kDiagonal = 1, NHERD_covariances = [1 / 4, 1 / 25],
                           NHERD_means = [1 / 6, 1 / 3], NHERD_compute_covariance = Some CovExact\<rparr>)
   \<and> NHERD_ctor 2 1 2 = Inr \<lparr>NHERD_kDim = 2, NHERD_kC = 1, NHERD_kDiagonal = 2, NHERD_covariances = [1, 1],
                           NHERD_means = [0, 0], NHERD_compute_covariance = Some CovProject\<rparr>
   \<and> NHERD_update NonZeroEntries \<lparr>NHERD_kDim = 2, NHERD_kC = 1, NHERD_kDiagonal = 2, NHERD_covariances = [1, 1],
                           NHERD_means = [0, 0], NHERD_compute_covariance = Some CovProject\<rparr> [1, 2] 1
       = Inr (True, \<lparr>NHERD_kDim = 2, NHERD_kC = 1, NHERD_kDiagonal = 2, NHERD_covariances = [1 / 8, 1 / 29],
                           NHERD_means = [1 / 6, 1 / 3], NHERD_compute_covariance = Some CovProject\<rparr>)
   \<and> NHERD_ctor 2 1 3 = Inr \<lparr>NHERD_kDim = 2, NHERD_kC = 1, NHERD_kDiagonal = 3, NHERD_covariances = [1, 1],
                           NHERD_means = [0, 0], NHERD_compute_covariance = Some CovDrop\<rparr>
   \<and> NHERD_update NonZeroEntries \<lparr>NHERD_kDim = 2, NHERD_kC = 1, NHERD_kDiagonal = 3, NHERD_covariances = [1, 1],
                           NHERD_means = [0, 0], NHERD_compute_covariance = Some CovDrop\<rparr> [1, 2] 1
       = Inr (True, \<lparr>NHERD_kDim = 2, NHERD_kC = 1, NHERD_kDiagonal = 3, NHERD_covariances = [29 / 36, 2 / 9],
                           NHERD_means = [1 / 6, 1 / 3], NHERD_compute_covariance = Some CovDrop\<rparr>)"
proof -
  let ?a0 = "\<lparr>NHERD_kDim = 2, NHERD_kC = 1, NHERD_kDiagonal = 0, NHERD_covariances = [1, 1],
                           NHERD_means = [0, 0], NHERD_compute_covariance = Some CovFull\<rparr>"
  let ?a1 = "\<lparr>NHERD_kDim = 2, NHERD_kC = 1, NHERD_kDiagonal = 0, NHERD_covariances = [29 / 36, 2 / 9],
                           NHERD_means = [1 / 6, 1 / 3], NHERD_compute_covariance = Some CovFull\<rparr>"
  let ?b0 = "\<lparr>NHERD_kDim = 2, NHERD_kC = 1, NHERD_kDiagonal = 1, NHERD_covariances = [1, 1],
                           NHERD_means = [0, 0], NHERD_compute_covariance = Some CovExact\<rparr>"
  let ?b1 = "\<lparr>NHERD_kDim = 2, NHERD_kC = 1, NHERD_kDiagonal = 1, NHERD_covariances = [1 / 4, 1 / 25],
                           NHERD_means = [1 / 6, 1 / 3], NHERD_compute_covariance = Some CovExact\<rparr>"
  let ?c0 = "\<lparr>NHERD_kDim = 2, NHERD_kC = 1, NHERD_kDiagonal = 2, NHERD_covariances = [1, 1],
                           NHERD_means = [0, 0], NHERD_compute_covariance = Some CovProject\<rparr>"
  let ?c1 = "\<lparr>NHERD_kDim = 2, NHERD_kC = 1, NHERD_kDiagonal = 2, NHERD_covariances = [1 / 8, 1 / 29],
                           NHERD_means = [1 / 6, 1 / 3], NHERD_compute_covariance = Some CovProject\<rparr>"
  let ?d0 = "\<lparr>NHERD_kDim = 2, NHERD_kC = 1, NHERD_kDiagonal = 3, NHERD_covariances = [1, 1],
                           NHERD_means = [0, 0], NHERD_compute_covariance = Some CovDrop\<rparr>"
  let ?d1 = "\<lparr>NHERD_kDim = 2, NHERD_kC = 1, NHERD_kDiagonal = 3, NHERD_covariances = [29 / 36, 2 / 9],
                           NHERD_means = [1 / 6, 1 / 3], NHERD_compute_covariance = Some CovDrop\<rparr>"
  have ca: "NHERD_ctor 2 1 0 = Inr ?a0" and cb: "NHERD_ctor 2 1 1 = Inr ?b0"
    and cc: "NHERD_ctor 2 1 2 = Inr ?c0" and cd: "NHERD_ctor 2 1 3 = Inr ?d0"
    by (simp_all add: NHERD_ctor_def NHERD_switch_def numeral_2_eq_2)
  have ia: "NHERD_inv ?a0" by (rule NHERD_inv_ctor [OF ca]) simp_all
  have ib: "NHERD_inv ?b0" by (rule NHERD_inv_ctor [OF cb]) simp_all
  have ic: "NHERD_inv ?c0" by (rule NHERD_inv_ctor [OF cc]) simp_all
  have id: "NHERD_inv ?d0" by (rule NHERD_inv_ctor [OF cd]) simp_all
  have ua: "NHERD_update NonZeroEntries ?a0 [1, 2] 1 = Inr (True, ?a1)"
    using NHERD_update_mean_covariance [OF ia, where k = 0 and x = "[1, 2]" and y = 1 and vis = NonZeroEntries]
    by (simp add: NHERD_switch_def)
  have ub: "NHERD_update NonZeroEntries ?b0 [1, 2] 1 = Inr (True, ?b1)"
    using NHERD_update_mean_covariance [OF ib, where k = 1 and x = "[1, 2]" and y = 1 and vis = NonZeroEntries]
    by (simp add: NHERD_switch_def)
  have uc: "NHERD_update NonZeroEntries ?c0 [1, 2] 1 = Inr (True, ?c1)"
    using NHERD_update_mean_covariance [OF ic, where k = 2 and x = "[1, 2]" and y = 1 and vis = NonZeroEntries]
    by (simp add: NHERD_switch_def)
  have ud: "NHERD_update NonZeroEntries ?d0 [1, 2] 1 = Inr (True, ?d1)"
    using NHERD_update_mean_covariance [OF id, where k = 3 and x = "[1, 2]" and y = 1 and vis = NonZeroEntries]
    by (simp add: NHERD_switch_def)
  have "\<forall>b s'. NHERD_update NonZeroEntries ?b0 [1, 2] 1 = Inr (b, s') \<longrightarrow>
           NHERD_inv s' \<and> NHERD_compute_covariance s' = NHERD_switch 1"
    using NHERD_update_mean_covariance [OF ib, where k = 1 and x = "[1, 2]" and y = 1 and vis = NonZeroEntries]
    by (simp add: NHERD_switch_def)
  with ub have ib1: "NHERD_inv ?b1"
    by blast
  have sb: "NHERD_update NonZeroEntries ?b1 [6, 0] 1 = Inr (False, ?b1)"
    using NHERD_update_mean_covariance [OF ib1, where k = 1 and x = "[6, 0]" and y = 1 and vis = NonZeroEntries]
    by (simp add: NHERD_switch_def)
  from ca ua cb ub sb cc uc cd ud show ?thesis
    by blast
qed

end
